theory Spec2Isabelle
  imports Main "HOL-Library.Word"
begin

unbundle bit_operations_syntax

section \<open>The mkbootimage driver (src/mkbootimage.c)\<close>

text \<open>
  The driver is the only translation unit under verification. Everything it calls
  from other units (the BIF parser, the size estimator, the image compositor) and
  from the C library (\<open>malloc\<close>, \<open>fopen\<close>) is a field of an environment
  record: the driver is verified for every behaviour of those collaborators.
  What the driver does is recorded as the list of its calls, in program order.
\<close>

subsection \<open>Data\<close>

type_synonym u32 = "32 word"

text \<open>\<open>size_t\<close> on an LP64 target.\<close>

type_synonym size_t = "64 word"

text \<open>
  \<open>error\<close> is the enumeration of common.h, which \<open>main\<close> stores in an \<open>int\<close>
  and tests against zero. The header is not among the sources: the enumerators that
  \<open>main\<close> names are fields of the environment.
\<close>

type_synonym error = int

definition EXIT_SUCCESS :: int where
  "EXIT_SUCCESS = 0"

definition EXIT_FAILURE :: int where
  "EXIT_FAILURE = 1"

text \<open>\<open>struct arguments\<close>: a \<open>char *\<close> that may be null is an option.\<close>

record arguments =
  zynqmp :: bool
  parse_only :: bool
  bit2bin :: bool
  bif_filename :: "string option"
  bin_filename :: "string option"

datatype bif_arch = BIF_ARCH_ZYNQ | BIF_ARCH_ZYNQMP

text \<open>The two operation tables of the architecture units; \<open>bops\<close> points at one of them.\<close>

datatype bootrom_ops = zynq_bops | zynqmp_bops

text \<open>
  The fields of \<open>bif_node_t\<close> and \<open>bif_cfg_t\<close> that the driver reads or writes.
  The array \<open>nodes\<close> with its count \<open>nodes_num\<close> is a list with its length.
\<close>

record bif_node =
  fname :: string
  bootloader :: bool
  load :: u32
  offset :: u32

record bif_cfg =
  arch :: bif_arch
  nodes :: "bif_node list"

definition nodes_num :: "bif_cfg \<Rightarrow> nat" where
  "nodes_num cfg = length (nodes cfg)"

text \<open>The four heap blocks the driver owns, named after the pointers that hold them.\<close>

datatype block = Derived_input | Derived_output | Bif_buf | File_data

text \<open>
  One event for each call that leaves the driver, with its arguments and, where the
  driver looks at it, its result. A parser event ends with the configuration the
  parser left behind \<open>&cfg\<close>.
\<close>

datatype event =
    Malloc block size_t bool
  | Free block
  | Printf string
  | Errorf string
  | Init_bif_cfg
  | Deinit_bif_cfg
  | Bif_parse string bif_cfg error bif_cfg
  | Bif_parse_buf string size_t string bif_cfg error bif_cfg
  | Estimate_boot_image_size bif_cfg u32
  | Create_boot_image bif_cfg bootrom_ops error u32
  | Fopen string string bool
  | Fwrite "u32 list"
  | Fclose

text \<open>
  The collaborators. The parsers return their error and the configuration they leave
  behind \<open>&cfg\<close>. \<open>create_boot_image\<close> returns its error, the word count it
  stores through \<open>&ofile_size\<close>, and the contents it leaves in the buffer, as a
  function from word offsets; the buffer's capacity is not among its arguments. The
  estimator and the compositor are taken to read the configuration without changing it.
  \<open>malloc\<close> is asked per block and size, \<open>fopen\<close> per path and mode; \<open>fwrite\<close>,
  \<open>fclose\<close> and \<open>printf\<close> have results the driver never looks at.
\<close>

record env =
  MKBOOTIMAGE_VER :: string
  ERROR_NOMEM :: error
  ERROR_CANT_WRITE :: error
  ERROR_BOOTROM_NOFILE :: error
  malloc :: "block \<Rightarrow> size_t \<Rightarrow> bool"
  init_bif_cfg :: bif_cfg
  bif_parse :: "string \<Rightarrow> bif_cfg \<Rightarrow> error \<times> bif_cfg"
  bif_parse_buf :: "string \<Rightarrow> size_t \<Rightarrow> string \<Rightarrow> bif_cfg \<Rightarrow> error \<times> bif_cfg"
  estimate_boot_image_size :: "bif_cfg \<Rightarrow> u32"
  create_boot_image :: "bif_cfg \<Rightarrow> bootrom_ops \<Rightarrow> error \<times> u32 \<times> (nat \<Rightarrow> u32)"
  fopen :: "string \<Rightarrow> string \<Rightarrow> bool"

text \<open>
  How a run ends: \<open>main\<close> returns a value, or the rounding loop never ends, or the
  run passes a null pointer to the C library (undefined behaviour).
\<close>

datatype outcome = Return int | Hang | Crash

subsection \<open>derive_filename (lines 63-90)\<close>

text \<open>\<open>strrchr\<close>: the offset of the last occurrence of a character, if any.\<close>

primrec strrchr :: "string \<Rightarrow> char \<Rightarrow> nat option" where
  "strrchr [] c = None"
| "strrchr (x # xs) c =
     (case strrchr xs c of
        Some i \<Rightarrow> Some (Suc i)
      | None \<Rightarrow> if x = c then Some 0 else None)"

definition slash :: char where
  "slash = CHR ''/''"

definition backslash :: char where
  "backslash = CHR 0x5C"

definition dot_char :: char where
  "dot_char = CHR ''.''"

definition newline :: string where
  "newline = [CHR 0x0A]"

text \<open>
  Pointers into \<open>src\<close> are offsets. The block is requested for the prefix, the new
  extension and the terminator; the result is null when \<open>malloc\<close> fails.
\<close>

definition derive_filename ::
  "env \<Rightarrow> block \<Rightarrow> string \<Rightarrow> string \<Rightarrow> event list \<Rightarrow> string option \<times> event list" where
  "derive_filename e blk src new_ext tr =
     (let sep = strrchr src slash;
          sep_back = strrchr src backslash;
          base = (case sep of
                    None \<Rightarrow> sep_back
                  | Some s \<Rightarrow> (case sep_back of
                                None \<Rightarrow> sep
                              | Some b \<Rightarrow> if b > s then sep_back else sep));
          base = (case base of Some b \<Rightarrow> b + 1 | None \<Rightarrow> 0);
          dot = strrchr (drop base src) dot_char;
          prefix_len = (case dot of Some d \<Rightarrow> base + d | None \<Rightarrow> length src);
          sz = (word_of_nat (prefix_len + length new_ext + 1) :: size_t);
          ok = malloc e blk sz;
          tr = tr @ [Malloc blk sz ok]
      in if \<not> ok then (None, tr)
         else (Some (take prefix_len src @ new_ext), tr))"

subsection \<open>main (lines 142-279)\<close>

text \<open>\<open>free\<close> of a null pointer does nothing.\<close>

definition free_ptr :: "block \<Rightarrow> string option \<Rightarrow> event list" where
  "free_ptr blk p = (case p of None \<Rightarrow> [] | Some _ \<Rightarrow> [Free blk])"

text \<open>The labels \<open>cleanup\<close>, \<open>cleanup_cfg\<close> and \<open>cleanup_no_file\<close> (lines 269-278).\<close>

definition cleanup ::
  "string option \<Rightarrow> string option \<Rightarrow> int \<Rightarrow> event list \<Rightarrow> outcome \<times> event list" where
  "cleanup derived_input derived_output ret tr =
     (Return ret,
      tr @ free_ptr Derived_input derived_input @ free_ptr Derived_output derived_output)"

definition cleanup_cfg ::
  "string option \<Rightarrow> string option \<Rightarrow> int \<Rightarrow> event list \<Rightarrow> outcome \<times> event list" where
  "cleanup_cfg derived_input derived_output ret tr =
     cleanup derived_input derived_output ret (tr @ [Deinit_bif_cfg])"

definition cleanup_no_file ::
  "env \<Rightarrow> string option \<Rightarrow> string option \<Rightarrow> event list \<Rightarrow> outcome \<times> event list" where
  "cleanup_no_file e derived_input derived_output tr =
     cleanup_cfg derived_input derived_output (ERROR_BOOTROM_NOFILE e) tr"

text \<open>\<open>%08x\<close> of a 32-bit value: eight lower-case hexadecimal digits.\<close>

definition hex_digit :: "u32 \<Rightarrow> char" where
  "hex_digit d = ''0123456789abcdef'' ! unat (d AND 0xF)"

definition hex08 :: "u32 \<Rightarrow> string" where
  "hex08 w = map (\<lambda>i. hex_digit (drop_bit (4 * i) w)) [7, 6, 5, 4, 3, 2, 1, 0]"

text \<open>The body of the reporting loop (lines 211-219) and the loop itself (line 210).\<close>

definition print_node :: "bif_node \<Rightarrow> event list" where
  "print_node n =
     [Printf ('' '' @ fname n)]
     @ (if bootloader n then [Printf ('' (bootloader)'' @ newline)] else [Printf newline])
     @ (if load n \<noteq> 0 then [Printf (''  load:   '' @ hex08 (load n) @ newline)] else [])
     @ (if offset n \<noteq> 0 then [Printf (''  offset: '' @ hex08 (offset n) @ newline)] else [])"

function print_nodes :: "bif_cfg \<Rightarrow> nat \<Rightarrow> event list" where
  "print_nodes cfg i =
     (if i < nodes_num cfg then print_node (nodes cfg ! i) @ print_nodes cfg (i + 1) else [])"
  by pat_completeness auto
termination
  by (relation "measure (\<lambda>(cfg, i). nodes_num cfg - i)") auto

declare print_nodes.simps [simp del]

text \<open>
  The rounding loop (lines 235-236) on \<open>uint32_t\<close>: the multiplication wraps.
  The result is \<open>None\<close> when the loop never ends.
\<close>

partial_function (option) esize_aligned_loop :: "u32 \<Rightarrow> u32 \<Rightarrow> u32 option" where
  "esize_aligned_loop esize_aligned esize =
     (if esize_aligned < esize then esize_aligned_loop (esize_aligned * 2) esize
      else Some esize_aligned)"

text \<open>
  Lines 228-267: estimation, allocation, composition and output. \<open>output\<close> is
  \<open>arguments.bin_filename\<close> as the earlier lines left it.
\<close>

definition main_image ::
  "env \<Rightarrow> string option \<Rightarrow> bif_cfg \<Rightarrow> bootrom_ops \<Rightarrow> string option \<Rightarrow> string option
     \<Rightarrow> event list \<Rightarrow> outcome \<times> event list" where
  "main_image e output cfg bops derived_input derived_output tr =
     (let esize = estimate_boot_image_size e cfg;
          tr = tr @ [Estimate_boot_image_size cfg esize]
      in if esize = 0 then cleanup_no_file e derived_input derived_output tr
         else
           (case esize_aligned_loop 2 esize of
              None \<Rightarrow> (Hang, tr)
            | Some esize_aligned \<Rightarrow>
                (let sz = (4 :: size_t) * ucast esize_aligned;
                     ok = malloc e File_data sz;
                     tr = tr @ [Malloc File_data sz ok]
                 in if \<not> ok then cleanup_cfg derived_input derived_output (ERROR_NOMEM e) tr
                    else
                      (case create_boot_image e cfg bops of
                         (err, ofile_size, file_data) \<Rightarrow>
                           (let tr = tr @ [Create_boot_image cfg bops err ofile_size]
                            in if err \<noteq> 0
                               then cleanup_cfg derived_input derived_output err
                                      (tr @ [Free File_data])
                               else
                                 (case output of
                                    None \<Rightarrow> (Crash, tr)
                                  | Some bin \<Rightarrow>
                                      (let opened = fopen e bin ''wb'';
                                           tr = tr @ [Fopen bin ''wb'' opened]
                                       in if \<not> opened
                                          then cleanup_cfg derived_input derived_output
                                                 (ERROR_CANT_WRITE e)
                                                 (tr @ [Errorf (''could not open output file: ''
                                                                 @ bin @ newline),
                                                        Free File_data])
                                          else cleanup_cfg derived_input derived_output
                                                 EXIT_SUCCESS
                                                 (tr @ [Fwrite (map file_data
                                                                  [0 ..< unat ofile_size]),
                                                        Fclose,
                                                        Free File_data,
                                                        Printf (''All done, quitting''
                                                                 @ newline)]))))))))"

text \<open>
  Lines 181-226: version banner, configuration set-up, parsing, the node report and
  the parse-only exit. \<open>bif\<close> is \<open>arguments.bif_filename\<close>, which is not null here,
  and \<open>output\<close> is \<open>arguments.bin_filename\<close>.
  A failed allocation of \<open>bif_buf\<close> returns at once, past every clean-up label.
\<close>

definition main_parse ::
  "env \<Rightarrow> arguments \<Rightarrow> string \<Rightarrow> string option \<Rightarrow> string option \<Rightarrow> string option
     \<Rightarrow> event list \<Rightarrow> outcome \<times> event list" where
  "main_parse e a bif output derived_input derived_output tr =
     (let tr = tr @ [Printf (MKBOOTIMAGE_VER e @ newline), Init_bif_cfg];
          cfg = (init_bif_cfg e)\<lparr>arch := (if zynqmp a then BIF_ARCH_ZYNQMP else BIF_ARCH_ZYNQ)\<rparr>;
          bops = (if zynqmp a then zynqmp_bops else zynq_bops);
          parsed =
            (if bit2bin a then
               (let text = ''all: { '' @ bif @ '' }'' @ newline;
                    bif_len = (word_of_nat (length text + 1) :: size_t);
                    ok = malloc e Bif_buf bif_len;
                    tr = tr @ [Malloc Bif_buf bif_len ok]
                in if \<not> ok then Inl (Return (ERROR_NOMEM e), tr)
                   else
                     (case bif_parse_buf e text (word_of_nat (length text)) ''<bit2bin>'' cfg of
                        (err, cfg') \<Rightarrow>
                          Inr (err, cfg',
                               tr @ [Bif_parse_buf text (word_of_nat (length text))
                                       ''<bit2bin>'' cfg err cfg',
                                     Free Bif_buf])))
             else
               (case bif_parse e bif cfg of
                  (err, cfg') \<Rightarrow> Inr (err, cfg', tr @ [Bif_parse bif cfg err cfg'])))
      in case parsed of
           Inl r \<Rightarrow> r
         | Inr (err, cfg, tr) \<Rightarrow>
             if err \<noteq> 0 then cleanup_cfg derived_input derived_output err tr
             else if nodes_num cfg = 0 then cleanup_no_file e derived_input derived_output tr
             else
               (let tr = tr @ [Printf (''Nodes found in the '' @ bif @ '' file:'' @ newline)]
                         @ print_nodes cfg 0
                in if parse_only a
                   then cleanup_cfg derived_input derived_output EXIT_SUCCESS
                          (tr @ [Printf (''The source BIF has a correct syntax'' @ newline)])
                   else main_image e output cfg bops derived_input derived_output tr))"

text \<open>
  Lines 162-179: the missing file name is derived from the one that was given.
  \<open>argp_parser\<close> ends the process when neither name is given (line 129), so a run
  that reaches line 164 with a null \<open>bin_filename\<close> has no defined behaviour.
  \<open>ret\<close> starts as \<open>EXIT_FAILURE\<close> (line 154) and is assigned again on every path
  to a \<open>return\<close>, so the initial value is never the result.
\<close>

definition main :: "env \<Rightarrow> arguments \<Rightarrow> outcome \<times> event list" where
  "main e a =
     (let tr = [];
          step1 =
            (case bif_filename a of
               Some bif \<Rightarrow> Inr (bif, None, tr)
             | None \<Rightarrow>
                 (case bin_filename a of
                    None \<Rightarrow> Inl (Crash, tr)
                  | Some bin \<Rightarrow>
                      (case derive_filename e Derived_input bin
                              (if bit2bin a then ''.bit'' else ''.bif'') tr of
                         (None, tr) \<Rightarrow> Inl (cleanup None None (ERROR_NOMEM e) tr)
                       | (Some d, tr) \<Rightarrow> Inr (d, Some d, tr))))
      in case step1 of
           Inl r \<Rightarrow> r
         | Inr (bif, derived_input, tr) \<Rightarrow>
             if bin_filename a = None \<and> \<not> parse_only a then
               (case derive_filename e Derived_output bif ''.bin'' tr of
                  (None, tr) \<Rightarrow> cleanup derived_input None (ERROR_NOMEM e) tr
                | (Some d, tr) \<Rightarrow> main_parse e a bif (Some d) derived_input (Some d) tr)
             else main_parse e a bif (bin_filename a) derived_input None tr)"

section \<open>What the claims are stated with\<close>

subsection \<open>The extension replacement, stated on the path\<close>

text \<open>
  What \<open>derive_filename\<close> is described to compute, written without offsets: the
  basename is the part after the last separator, \<open>/\<close> or \<open>\\<close>; when it holds a dot, its
  part from the last dot on is replaced by the new extension; otherwise the new extension
  is appended to the path.
\<close>

definition is_separator :: "char \<Rightarrow> bool" where
  "is_separator c = (c = slash \<or> c = backslash)"

definition basename_part :: "string \<Rightarrow> string" where
  "basename_part src = rev (takeWhile (\<lambda>c. \<not> is_separator c) (rev src))"

definition directory_part :: "string \<Rightarrow> string" where
  "directory_part src = rev (dropWhile (\<lambda>c. \<not> is_separator c) (rev src))"

definition replace_extension :: "string \<Rightarrow> string \<Rightarrow> string" where
  "replace_extension src new_ext =
     (let b = basename_part src
      in if dot_char \<in> set b
         then directory_part src @ rev (tl (dropWhile (\<lambda>c. c \<noteq> dot_char) (rev b))) @ new_ext
         else src @ new_ext)"

subsection \<open>The pieces of a run\<close>

text \<open>
  The offsets \<open>derive_filename\<close> computes (\<open>base\<close> and \<open>prefix_len\<close>) and the name it
  builds, named so that the traces below can mention them.
\<close>

definition base_offset :: "string \<Rightarrow> nat" where
  "base_offset src =
     (case (case strrchr src slash of
              None \<Rightarrow> strrchr src backslash
            | Some s \<Rightarrow> (case strrchr src backslash of
                          None \<Rightarrow> Some s
                        | Some b \<Rightarrow> if b > s then Some b else Some s)) of
        Some b \<Rightarrow> b + 1 | None \<Rightarrow> 0)"

definition prefix_length :: "string \<Rightarrow> nat" where
  "prefix_length src =
     (case strrchr (drop (base_offset src) src) dot_char of
        Some d \<Rightarrow> base_offset src + d
      | None \<Rightarrow> length src)"

definition derived_name :: "string \<Rightarrow> string \<Rightarrow> string" where
  "derived_name src new_ext = take (prefix_length src) src @ new_ext"

text \<open>
  The values and the stretches of the trace that the runs of \<open>main\<close> share: the two
  \<open>free\<close> calls of label \<open>cleanup\<close>, the configuration and operations table of lines
  184-188, the text of line 191, the result and the events of the parser call of lines
  190-201, the banner of lines 182-184 and the node report of lines 209-220.
\<close>

definition frees :: "string option \<Rightarrow> string option \<Rightarrow> event list" where
  "frees derived_input derived_output =
     free_ptr Derived_input derived_input @ free_ptr Derived_output derived_output"

definition start_cfg :: "env \<Rightarrow> arguments \<Rightarrow> bif_cfg" where
  "start_cfg e a =
     (init_bif_cfg e)\<lparr>arch := (if zynqmp a then BIF_ARCH_ZYNQMP else BIF_ARCH_ZYNQ)\<rparr>"

definition selected_bops :: "arguments \<Rightarrow> bootrom_ops" where
  "selected_bops a = (if zynqmp a then zynqmp_bops else zynq_bops)"

definition bit2bin_text :: "string \<Rightarrow> string" where
  "bit2bin_text bif = ''all: { '' @ bif @ '' }'' @ newline"

definition parse_result :: "env \<Rightarrow> arguments \<Rightarrow> string \<Rightarrow> error \<times> bif_cfg" where
  "parse_result e a bif =
     (if bit2bin a
      then bif_parse_buf e (bit2bin_text bif) (word_of_nat (length (bit2bin_text bif)))
             ''<bit2bin>'' (start_cfg e a)
      else bif_parse e bif (start_cfg e a))"

definition parse_events :: "env \<Rightarrow> arguments \<Rightarrow> string \<Rightarrow> event list" where
  "parse_events e a bif =
     (if bit2bin a
      then [Malloc Bif_buf (word_of_nat (length (bit2bin_text bif) + 1)) True,
            Bif_parse_buf (bit2bin_text bif) (word_of_nat (length (bit2bin_text bif)))
              ''<bit2bin>'' (start_cfg e a)
              (fst (parse_result e a bif)) (snd (parse_result e a bif)),
            Free Bif_buf]
      else [Bif_parse bif (start_cfg e a)
              (fst (parse_result e a bif)) (snd (parse_result e a bif))])"

definition banner :: "env \<Rightarrow> event list" where
  "banner e = [Printf (MKBOOTIMAGE_VER e @ newline), Init_bif_cfg]"

definition report :: "string \<Rightarrow> bif_cfg \<Rightarrow> event list" where
  "report bif cfg =
     Printf (''Nodes found in the '' @ bif @ '' file:'' @ newline) # print_nodes cfg 0"

text \<open>
  The two names after lines 162-179, the pointers \<open>derived_input\<close> and
  \<open>derived_output\<close>, and the allocations behind them. \<open>name_in\<close> is
  \<open>arguments.bif_filename\<close> and \<open>name_out\<close> is \<open>arguments.bin_filename\<close> as the rest of
  \<open>main\<close> sees them.
\<close>

definition input_ext :: "arguments \<Rightarrow> string" where
  "input_ext a = (if bit2bin a then ''.bit'' else ''.bif'')"

definition size_for :: "string \<Rightarrow> string \<Rightarrow> size_t" where
  "size_for src new_ext = word_of_nat (prefix_length src + length new_ext + 1)"

definition name_in :: "arguments \<Rightarrow> string" where
  "name_in a =
     (case bif_filename a of
        Some bif \<Rightarrow> bif
      | None \<Rightarrow> (case bin_filename a of
                   Some bin \<Rightarrow> derived_name bin (input_ext a)
                 | None \<Rightarrow> []))"

definition derived_in :: "arguments \<Rightarrow> string option" where
  "derived_in a = (case bif_filename a of Some _ \<Rightarrow> None | None \<Rightarrow> Some (name_in a))"

definition allocs_in :: "arguments \<Rightarrow> bool \<Rightarrow> event list" where
  "allocs_in a ok =
     (case bif_filename a of
        Some _ \<Rightarrow> []
      | None \<Rightarrow> (case bin_filename a of
                   Some bin \<Rightarrow> [Malloc Derived_input (size_for bin (input_ext a)) ok]
                 | None \<Rightarrow> []))"

definition derives_out :: "arguments \<Rightarrow> bool" where
  "derives_out a \<longleftrightarrow> bin_filename a = None \<and> \<not> parse_only a"

definition name_out :: "arguments \<Rightarrow> string option" where
  "name_out a =
     (if derives_out a then Some (derived_name (name_in a) ''.bin'') else bin_filename a)"

definition derived_out :: "arguments \<Rightarrow> string option" where
  "derived_out a = (if derives_out a then name_out a else None)"

definition allocs_out :: "arguments \<Rightarrow> bool \<Rightarrow> event list" where
  "allocs_out a ok =
     (if derives_out a then [Malloc Derived_output (size_for (name_in a) ''.bin'') ok] else [])"

definition prologue :: "env \<Rightarrow> arguments \<Rightarrow> event list" where
  "prologue e a = allocs_in a True @ allocs_out a True @ banner e"

definition epilogue :: "arguments \<Rightarrow> event list" where
  "epilogue a = Deinit_bif_cfg # frees (derived_in a) (derived_out a)"

subsection \<open>Kinds of events\<close>

text \<open>
  \<open>failed\<close>: a call whose result sends \<open>main\<close> to an error exit (a null \<open>malloc\<close>, a
  nonzero parser or compositor error, a zero estimate). \<open>housekeeping\<close>: the events of
  the prologue, the report and the epilogue. \<open>builds_image\<close>: every call from the size
  estimate to \<open>fclose\<close>, with the allocation and release of the image buffer.
  \<open>touches_output\<close>: those and the derivation of the output name.
\<close>

definition is_fwrite :: "event \<Rightarrow> bool" where
  "is_fwrite ev = (case ev of Fwrite _ \<Rightarrow> True | _ \<Rightarrow> False)"

definition failed :: "event \<Rightarrow> bool" where
  "failed ev =
     (case ev of
        Malloc _ _ ok \<Rightarrow> \<not> ok
      | Bif_parse _ _ err _ \<Rightarrow> err \<noteq> 0
      | Bif_parse_buf _ _ _ _ err _ \<Rightarrow> err \<noteq> 0
      | Estimate_boot_image_size _ esize \<Rightarrow> esize = 0
      | Create_boot_image _ _ err _ \<Rightarrow> err \<noteq> 0
      | _ \<Rightarrow> False)"

definition housekeeping :: "event \<Rightarrow> bool" where
  "housekeeping ev =
     (case ev of
        Malloc blk _ ok \<Rightarrow> (blk = Derived_input \<or> blk = Derived_output) \<and> ok
      | Free blk \<Rightarrow> blk = Derived_input \<or> blk = Derived_output
      | Printf _ \<Rightarrow> True
      | Init_bif_cfg \<Rightarrow> True
      | Deinit_bif_cfg \<Rightarrow> True
      | _ \<Rightarrow> False)"

definition builds_image :: "event \<Rightarrow> bool" where
  "builds_image ev =
     (case ev of
        Malloc blk _ _ \<Rightarrow> blk = File_data
      | Free blk \<Rightarrow> blk = File_data
      | Estimate_boot_image_size _ _ \<Rightarrow> True
      | Create_boot_image _ _ _ _ \<Rightarrow> True
      | Fopen _ _ _ \<Rightarrow> True
      | Fwrite _ \<Rightarrow> True
      | Fclose \<Rightarrow> True
      | _ \<Rightarrow> False)"

definition touches_output :: "event \<Rightarrow> bool" where
  "touches_output ev =
     (case ev of
        Malloc blk _ _ \<Rightarrow> blk = File_data \<or> blk = Derived_output
      | Free blk \<Rightarrow> blk = File_data \<or> blk = Derived_output
      | _ \<Rightarrow> builds_image ev)"

definition is_parse :: "event \<Rightarrow> bool" where
  "is_parse ev =
     (case ev of
        Bif_parse _ _ _ _ \<Rightarrow> True
      | Bif_parse_buf _ _ _ _ _ _ \<Rightarrow> True
      | _ \<Rightarrow> False)"

text \<open>What lines 228-267 return, whatever was traced before them.\<close>

definition image_outcome :: "env \<Rightarrow> string option \<Rightarrow> bif_cfg \<Rightarrow> bootrom_ops \<Rightarrow> outcome" where
  "image_outcome e output cfg bops = fst (main_image e output cfg bops None None [])"

definition is_create :: "event \<Rightarrow> bool" where
  "is_create ev = (case ev of Create_boot_image _ _ _ _ \<Rightarrow> True | _ \<Rightarrow> False)"

definition is_release :: "event \<Rightarrow> bool" where
  "is_release ev = (case ev of Free _ \<Rightarrow> True | Deinit_bif_cfg \<Rightarrow> True | _ \<Rightarrow> False)"



subsection \<open>Example environments, arguments and the traces of their runs\<close>

text \<open>
  A parser that finds two nodes in every file and one node in every buffer, an
  estimator that asks for five words, a compositor that uses three, and a C library
  that never fails; then variations of it, one per way a run can end.
\<close>

definition demo_nodes :: "bif_node list" where
  "demo_nodes =
     [\<lparr>fname = ''fsbl.elf'', bootloader = True, load = 0, offset = 0\<rparr>,
      \<lparr>fname = ''u-boot.elf'', bootloader = False, load = 0x100000, offset = 0x1AB00\<rparr>]"

definition demo_env :: env where
  "demo_env =
     \<lparr>MKBOOTIMAGE_VER = ''mkbootimage 2.3'',
      ERROR_NOMEM = 7,
      ERROR_CANT_WRITE = 9,
      ERROR_BOOTROM_NOFILE = 1,
      malloc = (\<lambda>blk sz. True),
      init_bif_cfg = \<lparr>arch = BIF_ARCH_ZYNQ, nodes = []\<rparr>,
      bif_parse = (\<lambda>f cfg. (0, cfg\<lparr>nodes := demo_nodes\<rparr>)),
      bif_parse_buf =
        (\<lambda>t l lbl cfg.
           (0, cfg\<lparr>nodes := [\<lparr>fname = ''top.bit'', bootloader = False,
                                 load = 0, offset = 0\<rparr>]\<rparr>)),
      estimate_boot_image_size = (\<lambda>cfg. 5),
      create_boot_image = (\<lambda>cfg bops. (0, 3, \<lambda>i. word_of_nat (i + 1))),
      fopen = (\<lambda>p m. True)\<rparr>"

definition demo_args :: arguments where
  "demo_args =
     \<lparr>zynqmp = False, parse_only = False, bit2bin = False,
      bif_filename = Some ''boot.bif'', bin_filename = None\<rparr>"

definition demo_cfg :: bif_cfg where
  "demo_cfg = \<lparr>arch = BIF_ARCH_ZYNQ, nodes = demo_nodes\<rparr>"

definition demo_report :: "event list" where
  "demo_report =
     [Printf '' fsbl.elf'', Printf ('' (bootloader)'' @ newline),
      Printf '' u-boot.elf'', Printf newline,
      Printf (''  load:   00100000'' @ newline),
      Printf (''  offset: 0001ab00'' @ newline)]"

definition demo_start_cfg :: bif_cfg where
  "demo_start_cfg = \<lparr>arch = BIF_ARCH_ZYNQ, nodes = []\<rparr>"

definition demo_trace :: "event list" where
  "demo_trace =
     [Malloc Derived_output 9 True,
      Printf (''mkbootimage 2.3'' @ newline), Init_bif_cfg,
      Bif_parse ''boot.bif'' demo_start_cfg 0 demo_cfg,
      Printf (''Nodes found in the boot.bif file:'' @ newline)]
     @ demo_report
     @ [Estimate_boot_image_size demo_cfg 5,
        Malloc File_data 32 True,
        Create_boot_image demo_cfg zynq_bops 0 3,
        Fopen ''boot.bin'' ''wb'' True,
        Fwrite [1, 2, 3], Fclose, Free File_data,
        Printf (''All done, quitting'' @ newline),
        Deinit_bif_cfg, Free Derived_output]"

definition env_parse_error :: env where
  "env_parse_error = demo_env\<lparr>bif_parse := (\<lambda>f cfg. (4, cfg))\<rparr>"

definition parse_error_trace :: "event list" where
  "parse_error_trace =
     [Malloc Derived_output 9 True,
      Printf (''mkbootimage 2.3'' @ newline), Init_bif_cfg,
      Bif_parse ''boot.bif'' demo_start_cfg 4 demo_start_cfg,
      Deinit_bif_cfg, Free Derived_output]"

definition env_read_only :: env where
  "env_read_only = demo_env\<lparr>fopen := (\<lambda>p m. False)\<rparr>"

definition read_only_trace :: "event list" where
  "read_only_trace =
     [Malloc Derived_output 9 True,
      Printf (''mkbootimage 2.3'' @ newline), Init_bif_cfg,
      Bif_parse ''boot.bif'' demo_start_cfg 0 demo_cfg,
      Printf (''Nodes found in the boot.bif file:'' @ newline)]
     @ demo_report
     @ [Estimate_boot_image_size demo_cfg 5,
        Malloc File_data 32 True,
        Create_boot_image demo_cfg zynq_bops 0 3,
        Fopen ''boot.bin'' ''wb'' False,
        Errorf (''could not open output file: boot.bin'' @ newline),
        Free File_data,
        Deinit_bif_cfg, Free Derived_output]"

definition args_inspect :: arguments where
  "args_inspect =
     \<lparr>zynqmp = True, parse_only = True, bit2bin = False,
      bif_filename = None, bin_filename = Some ''out/boot.bin''\<rparr>"

definition inspect_trace :: "event list" where
  "inspect_trace =
     [Malloc Derived_input 13 True,
      Printf (''mkbootimage 2.3'' @ newline), Init_bif_cfg,
      Bif_parse ''out/boot.bif'' \<lparr>arch = BIF_ARCH_ZYNQMP, nodes = []\<rparr> 0
        \<lparr>arch = BIF_ARCH_ZYNQMP, nodes = demo_nodes\<rparr>,
      Printf (''Nodes found in the out/boot.bif file:'' @ newline)]
     @ demo_report
     @ [Printf (''The source BIF has a correct syntax'' @ newline),
        Deinit_bif_cfg, Free Derived_input]"

definition env_empty :: env where
  "env_empty = demo_env\<lparr>bif_parse := (\<lambda>f cfg. (0, cfg))\<rparr>"

definition args_inspect_empty :: arguments where
  "args_inspect_empty =
     \<lparr>zynqmp = False, parse_only = True, bit2bin = False,
      bif_filename = Some ''empty.bif'', bin_filename = None\<rparr>"

definition inspect_empty_trace :: "event list" where
  "inspect_empty_trace =
     [Printf (''mkbootimage 2.3'' @ newline), Init_bif_cfg,
      Bif_parse ''empty.bif'' demo_start_cfg 0 demo_start_cfg,
      Deinit_bif_cfg]"

definition args_inspect_named :: arguments where
  "args_inspect_named =
     \<lparr>zynqmp = False, parse_only = True, bit2bin = False,
      bif_filename = None, bin_filename = Some ''boot.bin''\<rparr>"

definition inspect_named_trace :: "event list" where
  "inspect_named_trace =
     [Malloc Derived_input 9 True,
      Printf (''mkbootimage 2.3'' @ newline), Init_bif_cfg,
      Bif_parse ''boot.bif'' demo_start_cfg 0 demo_start_cfg,
      Deinit_bif_cfg, Free Derived_input]"

definition args_bit2bin :: arguments where
  "args_bit2bin =
     \<lparr>zynqmp = False, parse_only = False, bit2bin = True,
      bif_filename = Some ''top.bit'', bin_filename = Some ''top.bin''\<rparr>"

definition bit_cfg :: bif_cfg where
  "bit_cfg =
     \<lparr>arch = BIF_ARCH_ZYNQ,
      nodes = [\<lparr>fname = ''top.bit'', bootloader = False, load = 0, offset = 0\<rparr>]\<rparr>"


definition env_huge :: env where
  "env_huge = demo_env\<lparr>estimate_boot_image_size := (\<lambda>cfg. 0x80000001)\<rparr>"

definition huge_trace :: "event list" where
  "huge_trace =
     [Malloc Derived_output 9 True,
      Printf (''mkbootimage 2.3'' @ newline), Init_bif_cfg,
      Bif_parse ''boot.bif'' demo_start_cfg 0 demo_cfg,
      Printf (''Nodes found in the boot.bif file:'' @ newline)]
     @ demo_report
     @ [Estimate_boot_image_size demo_cfg 0x80000001]"

definition env_bit :: env where
  "env_bit = demo_env\<lparr>bif_parse := (\<lambda>f cfg. (0, cfg\<lparr>nodes := nodes bit_cfg\<rparr>))\<rparr>"

definition args_bit2bin_named :: arguments where
  "args_bit2bin_named =
     \<lparr>zynqmp = False, parse_only = False, bit2bin = True,
      bif_filename = None, bin_filename = Some ''top.bin''\<rparr>"

definition bit2bin_named_trace :: "event list" where
  "bit2bin_named_trace =
     [Malloc Derived_input 8 True,
      Printf (''mkbootimage 2.3'' @ newline), Init_bif_cfg,
      Malloc Bif_buf 18 True,
      Bif_parse_buf (''all: { top.bit }'' @ newline) 17 ''<bit2bin>'' demo_start_cfg 0 bit_cfg,
      Free Bif_buf,
      Printf (''Nodes found in the top.bit file:'' @ newline),
      Printf '' top.bit'', Printf newline,
      Estimate_boot_image_size bit_cfg 5,
      Malloc File_data 32 True,
      Create_boot_image bit_cfg zynq_bops 0 3,
      Fopen ''top.bin'' ''wb'' True,
      Fwrite [1, 2, 3], Fclose, Free File_data,
      Printf (''All done, quitting'' @ newline),
      Deinit_bif_cfg, Free Derived_input]"

definition env_compose_error :: env where
  "env_compose_error = demo_env\<lparr>create_boot_image := (\<lambda>cfg bops. (5, 0, \<lambda>i. 0))\<rparr>"

definition compose_error_trace :: "event list" where
  "compose_error_trace =
     [Malloc Derived_output 9 True,
      Printf (''mkbootimage 2.3'' @ newline), Init_bif_cfg,
      Bif_parse ''boot.bif'' demo_start_cfg 0 demo_cfg,
      Printf (''Nodes found in the boot.bif file:'' @ newline)]
     @ demo_report
     @ [Estimate_boot_image_size demo_cfg 5,
        Malloc File_data 32 True,
        Create_boot_image demo_cfg zynq_bops 5 0,
        Free File_data,
        Deinit_bif_cfg, Free Derived_output]"

definition env_bad_bit :: env where
  "env_bad_bit = demo_env\<lparr>bif_parse_buf := (\<lambda>t l lbl cfg. (6, cfg))\<rparr>"

definition bad_bit_trace :: "event list" where
  "bad_bit_trace =
     [Printf (''mkbootimage 2.3'' @ newline), Init_bif_cfg,
      Malloc Bif_buf 18 True,
      Bif_parse_buf (''all: { top.bit }'' @ newline) 17 ''<bit2bin>'' demo_start_cfg 6
        demo_start_cfg,
      Free Bif_buf,
      Deinit_bif_cfg]"

section \<open>Properties of the model\<close>

subsection \<open>The rounding loop\<close>

text \<open>
  One turn of the loop, and its exit. From \<open>0\<close> the loop never ends unless the estimate
  is \<open>0\<close>; from \<open>2\<close> it reaches \<open>0\<close> exactly when the estimate exceeds \<open>2 ^ 31\<close>.
\<close>

lemma loop_step:
  "esize_aligned < esize \<Longrightarrow>
     esize_aligned_loop esize_aligned esize = esize_aligned_loop (esize_aligned * 2) esize"
  by (subst esize_aligned_loop.simps) simp

lemma loop_stop:
  "\<not> esize_aligned < esize \<Longrightarrow> esize_aligned_loop esize_aligned esize = Some esize_aligned"
  by (subst esize_aligned_loop.simps) simp

lemma loop_from_zero_aux:
  assumes "esize_aligned_loop a esize = Some y"
  shows "a = 0 \<longrightarrow> esize = 0"
  by (rule esize_aligned_loop.raw_induct
        [where P = "\<lambda>a e y. a = 0 \<longrightarrow> e = 0", OF _ assms])
     (auto split: if_splits simp: word_gt_0)

lemma loop_from_zero: "esize \<noteq> 0 \<Longrightarrow> esize_aligned_loop 0 esize = None"
  using loop_from_zero_aux [of 0 esize] by (cases "esize_aligned_loop 0 esize") auto

lemma unat_pow2: "k < 32 \<Longrightarrow> unat (2 ^ k :: u32) = 2 ^ k"
proof -
  assume k: "k < 32"
  have "(2 ^ k :: u32) = word_of_nat (2 ^ k)" by simp
  then have "unat (2 ^ k :: u32) = 2 ^ k mod 2 ^ 32"
    by (simp only: unat_of_nat) simp
  moreover have "(2::nat) ^ k < 2 ^ 32" using k by (intro power_strict_increasing) auto
  ultimately show ?thesis by simp
qed

lemma loop_overflow:
  "1 \<le> k \<Longrightarrow> k \<le> 31 \<Longrightarrow> 2 ^ 31 < unat esize \<Longrightarrow> esize_aligned_loop (2 ^ k) esize = None"
proof (induction "31 - k" arbitrary: k)
  case 0
  then have k: "k = 31" by simp
  have lt: "(2 ^ 31 :: u32) < esize"
    using 0 by (simp add: word_less_nat_alt)
  then have nz: "esize \<noteq> 0" by auto
  have wrap: "(2 ^ 31 :: u32) * 2 = 0" by simp
  have "esize_aligned_loop (2 ^ 31) esize = esize_aligned_loop (2 ^ 31 * 2) esize"
    by (rule loop_step [OF lt])
  also have "\<dots> = esize_aligned_loop 0 esize" by (simp only: wrap)
  also have "\<dots> = None" by (rule loop_from_zero [OF nz])
  finally show ?case unfolding k .
next
  case (Suc n)
  have "unat (2 ^ k :: u32) = 2 ^ k" using Suc by (intro unat_pow2) auto
  moreover have "(2::nat) ^ k \<le> 2 ^ 31" using Suc by (intro power_increasing) auto
  ultimately have lt: "(2 ^ k :: u32) < esize"
    using Suc by (simp add: word_less_nat_alt)
  have "esize_aligned_loop (2 ^ Suc k) esize = None"
    using Suc by (intro Suc(1)) auto
  with loop_step [OF lt] show ?case by (simp add: mult.commute)
qed

lemma loop_diverges: "2 ^ 31 < unat esize \<Longrightarrow> esize_aligned_loop 2 esize = None"
  using loop_overflow [of 1 esize] by simp

lemma loop_returns_aux:
  "1 \<le> k \<Longrightarrow> k \<le> 31 \<Longrightarrow> unat esize \<le> 2 ^ 31 \<Longrightarrow>
     \<exists>j. k \<le> j \<and> j \<le> 31 \<and> esize_aligned_loop (2 ^ k) esize = Some (2 ^ j) \<and> esize \<le> 2 ^ j"
proof (induction "31 - k" arbitrary: k)
  case 0
  then have k: "k = 31" by simp
  have "unat (2 ^ 31 :: u32) = 2 ^ 31" by simp
  then have le: "esize \<le> 2 ^ 31" using 0 by (simp add: word_le_nat_alt)
  then have "esize_aligned_loop (2 ^ 31) esize = Some (2 ^ 31)"
    by (intro loop_stop) (simp add: not_less)
  with le show ?case unfolding k by (intro exI [of _ 31]) simp
next
  case (Suc n)
  show ?case
  proof (cases "(2 ^ k :: u32) < esize")
    case True
    have "\<exists>j. Suc k \<le> j \<and> j \<le> 31 \<and> esize_aligned_loop (2 ^ Suc k) esize = Some (2 ^ j) \<and> esize \<le> 2 ^ j"
      using Suc by (intro Suc(1)) auto
    then obtain j where
      j: "Suc k \<le> j" "j \<le> 31" "esize_aligned_loop (2 ^ Suc k) esize = Some (2 ^ j)" "esize \<le> 2 ^ j"
      by blast
    have "esize_aligned_loop (2 ^ k) esize = esize_aligned_loop (2 ^ Suc k) esize"
      using loop_step [OF True] by (simp add: mult.commute)
    with j show ?thesis by (intro exI [of _ j]) auto
  next
    case False
    then have "esize_aligned_loop (2 ^ k) esize = Some (2 ^ k)" by (rule loop_stop)
    with False Suc show ?thesis by (intro exI [of _ k]) (auto simp: not_less)
  qed
qed

lemma rounding_loop_returns:
  assumes "unat esize \<le> 2 ^ 31"
  shows "\<exists>k. 1 \<le> k \<and> k \<le> 31 \<and> esize_aligned_loop 2 esize = Some (2 ^ k)
           \<and> esize \<le> 2 ^ k \<and> (2 :: u32) \<le> 2 ^ k"
proof -
  from loop_returns_aux [of 1 esize] assms obtain j where
    j: "1 \<le> j" "j \<le> 31" "esize_aligned_loop 2 esize = Some (2 ^ j)" "esize \<le> 2 ^ j"
    by auto
  have "unat (2 ^ j :: u32) = 2 ^ j" using j by (intro unat_pow2) auto
  moreover have "(2 :: nat) ^ 1 \<le> 2 ^ j" using j by (intro power_increasing) auto
  ultimately have "(2 :: u32) \<le> 2 ^ j" by (simp add: word_le_nat_alt)
  with j show ?thesis by blast
qed

lemma file_data_bytes: "unat ((4 :: size_t) * ucast (cap :: u32)) = 4 * unat cap"
proof -
  have lt: "unat cap < 2 ^ 32" using unsigned_less [of cap] by simp
  then have "unat cap < 2 ^ 64" by simp
  then have c: "unat (ucast cap :: size_t) = unat cap"
    by (simp add: unsigned_ucast_eq take_bit_nat_eq_self_iff)
  have "unat (4 :: size_t) * unat (ucast cap :: size_t) < 2 ^ LENGTH(64)"
    using c lt by simp
  then have "unat ((4 :: size_t) * ucast cap) = unat (4 :: size_t) * unat (ucast cap :: size_t)"
    by (rule unat_mult_lem [THEN iffD1])
  with c show ?thesis by simp
qed

subsection \<open>derive_filename computes the extension replacement\<close>

lemma strrchr_None: "strrchr s c = None \<longleftrightarrow> c \<notin> set s"
  by (induction s) (auto split: option.splits)

lemma strrchr_Some:
  "strrchr s c = Some i \<Longrightarrow> i < length s \<and> s ! i = c \<and> c \<notin> set (drop (Suc i) s)"
proof (induction s arbitrary: i)
  case Nil
  then show ?case by simp
next
  case (Cons x xs)
  then show ?case
    by (auto split: option.splits if_splits simp: strrchr_None)
qed

lemma strrchr_split:
  assumes "strrchr s c = Some i"
  shows "s = take i s @ c # drop (Suc i) s" and "c \<notin> set (drop (Suc i) s)"
  using strrchr_Some [OF assms] by (auto simp: id_take_nth_drop)

lemma rev_takeWhile_split:
  assumes "s = p @ x # q" and "\<not> P x" and "\<forall>c\<in>set q. P c"
  shows "rev (takeWhile P (rev s)) = q" and "rev (dropWhile P (rev s)) = p @ [x]"
proof -
  have r: "rev s = rev q @ x # rev p" using assms(1) by simp
  have "takeWhile P (rev q @ x # rev p) = rev q"
    using assms(2,3) by (subst takeWhile_append2) auto
  then show "rev (takeWhile P (rev s)) = q" by (simp add: r)
  have "dropWhile P (rev q @ x # rev p) = x # rev p"
    using assms(2,3) by (subst dropWhile_append2) auto
  then show "rev (dropWhile P (rev s)) = p @ [x]" by (simp add: r)
qed

lemma rev_takeWhile_all:
  assumes "\<forall>c\<in>set s. P c"
  shows "rev (takeWhile P (rev s)) = s" and "rev (dropWhile P (rev s)) = []"
proof -
  have "takeWhile P (rev s) = rev s"
    using assms by (simp add: takeWhile_eq_all_conv)
  then show "rev (takeWhile P (rev s)) = s" by (simp only: rev_rev_ident)
  show "rev (dropWhile P (rev s)) = []" using assms by simp
qed

lemma sep_at:
  assumes i: "i < length src" and sep: "is_separator (src ! i)"
    and rest: "\<forall>c\<in>set (drop (Suc i) src). \<not> is_separator c"
  shows "directory_part src = take (Suc i) src \<and> basename_part src = drop (Suc i) src"
proof -
  have s: "src = take i src @ (src ! i) # drop (Suc i) src"
    using i by (rule id_take_nth_drop)
  have "\<not> \<not> is_separator (src ! i)" using sep by simp
  from rev_takeWhile_split [OF s this rest]
  show ?thesis using i by (simp add: basename_part_def directory_part_def take_Suc_conv_app_nth)
qed

lemma drop_mono_set: "i \<le> j \<Longrightarrow> set (drop j xs) \<subseteq> set (drop i xs)"
  by (rule set_drop_subset_set_drop)

lemma base_offset_split:
  "directory_part src = take (base_offset src) src \<and> basename_part src = drop (base_offset src) src"
proof (cases "strrchr src slash")
  case None
  note sl = this
  show ?thesis
  proof (cases "strrchr src backslash")
    case None
    with sl have "\<forall>c\<in>set src. \<not> is_separator c"
      by (auto simp: strrchr_None is_separator_def)
    from rev_takeWhile_all [OF this] show ?thesis
      using sl None by (simp add: base_offset_def basename_part_def directory_part_def)
  next
    case (Some t)
    from strrchr_Some [OF Some] sl
    have "t < length src" "is_separator (src ! t)" "\<forall>c\<in>set (drop (Suc t) src). \<not> is_separator c"
      by (auto simp: strrchr_None is_separator_def dest: in_set_dropD)
    from sep_at [OF this] show ?thesis
      using sl Some by (simp add: base_offset_def)
  qed
next
  case (Some s)
  note sl = this
  show ?thesis
  proof (cases "strrchr src backslash")
    case None
    from strrchr_Some [OF sl] None
    have "s < length src" "is_separator (src ! s)" "\<forall>c\<in>set (drop (Suc s) src). \<not> is_separator c"
      by (auto simp: strrchr_None is_separator_def dest: in_set_dropD)
    from sep_at [OF this] show ?thesis
      using sl None by (simp add: base_offset_def)
  next
    case (Some t)
    note bs = this
    show ?thesis
    proof (cases "t > s")
      case True
      then have "set (drop (Suc t) src) \<subseteq> set (drop (Suc s) src)"
        by (intro drop_mono_set) simp
      with strrchr_Some [OF sl] strrchr_Some [OF bs]
      have "t < length src" "is_separator (src ! t)" "\<forall>c\<in>set (drop (Suc t) src). \<not> is_separator c"
        by (auto simp: is_separator_def)
      from sep_at [OF this] show ?thesis
        using sl bs True by (simp add: base_offset_def)
    next
      case False
      then have "set (drop (Suc s) src) \<subseteq> set (drop (Suc t) src)"
        by (intro drop_mono_set) simp
      with strrchr_Some [OF sl] strrchr_Some [OF bs]
      have "s < length src" "is_separator (src ! s)" "\<forall>c\<in>set (drop (Suc s) src). \<not> is_separator c"
        by (auto simp: is_separator_def)
      from sep_at [OF this] show ?thesis
        using sl bs False by (simp add: base_offset_def)
    qed
  qed
qed

lemma prefix_length_le: "prefix_length src \<le> length src"
  using strrchr_Some [of "drop (base_offset src) src" dot_char]
  by (auto simp: prefix_length_def split: option.splits)

lemma derived_name_spec: "derived_name src new_ext = replace_extension src new_ext"
proof -
  let ?b = "base_offset src"
  have split: "directory_part src = take ?b src" "basename_part src = drop ?b src"
    using base_offset_split [of src] by simp_all
  show ?thesis
  proof (cases "strrchr (drop ?b src) dot_char")
    case None
    then have "dot_char \<notin> set (drop ?b src)" by (simp add: strrchr_None)
    with None show ?thesis
      by (simp add: derived_name_def prefix_length_def replace_extension_def split)
  next
    case (Some d)
    from strrchr_split [OF Some]
    have "rev (tl (dropWhile (\<lambda>c. c \<noteq> dot_char) (rev (drop ?b src)))) = take d (drop ?b src)"
      using rev_takeWhile_split(2) [of "drop ?b src" "take d (drop ?b src)" dot_char
              "drop (Suc d) (drop ?b src)" "\<lambda>c. c \<noteq> dot_char"]
      by (metis (mono_tags, lifting) butlast_snoc rev_rev_ident rev_swap butlast_rev)
    moreover have "dot_char \<in> set (drop ?b src)"
      using Some strrchr_None [of "drop ?b src" dot_char] by auto
    moreover have "take (?b + d) src = take ?b src @ take d (drop ?b src)"
      by (simp add: take_add)
    ultimately show ?thesis
      using Some by (simp add: derived_name_def prefix_length_def replace_extension_def split)
  qed
qed

lemma derive_filename_eq:
  "derive_filename e blk src new_ext tr =
     (let sz = word_of_nat (prefix_length src + length new_ext + 1) in
      if malloc e blk sz then (Some (derived_name src new_ext), tr @ [Malloc blk sz True])
      else (None, tr @ [Malloc blk sz False]))"
  by (simp add: derive_filename_def derived_name_def prefix_length_def base_offset_def Let_def
        split: option.splits)

subsection \<open>The runs of main\<close>

text \<open>
  Each of the three parts of \<open>main\<close> ends in one of a few ways, and a run of \<open>main\<close> in
  one of thirteen, each with its trace written out. A null \<open>arguments.bin_filename\<close>
  never reaches \<open>fopen\<close>.
\<close>

lemma main_image_cases [consumes 1, case_names nothing hang nomem compose_error no_output open_error written]:
  assumes "main_image e output cfg bops di dout tr0 = (out, tr)"
  obtains
    (nothing) "estimate_boot_image_size e cfg = 0"
      "out = Return (ERROR_BOOTROM_NOFILE e)"
      "tr = tr0 @ [Estimate_boot_image_size cfg 0, Deinit_bif_cfg] @ frees di dout"
  | (hang) esize where "esize = estimate_boot_image_size e cfg" "esize \<noteq> 0"
      "esize_aligned_loop 2 esize = None"
      "out = Hang"
      "tr = tr0 @ [Estimate_boot_image_size cfg esize]"
  | (nomem) esize cap where "esize = estimate_boot_image_size e cfg" "esize \<noteq> 0"
      "esize_aligned_loop 2 esize = Some cap"
      "\<not> malloc e File_data (4 * ucast cap)"
      "out = Return (ERROR_NOMEM e)"
      "tr = tr0 @ [Estimate_boot_image_size cfg esize, Malloc File_data (4 * ucast cap) False,
                   Deinit_bif_cfg] @ frees di dout"
  | (compose_error) esize cap err n img where "esize = estimate_boot_image_size e cfg" "esize \<noteq> 0"
      "esize_aligned_loop 2 esize = Some cap"
      "malloc e File_data (4 * ucast cap)"
      "create_boot_image e cfg bops = (err, n, img)" "err \<noteq> 0"
      "out = Return err"
      "tr = tr0 @ [Estimate_boot_image_size cfg esize, Malloc File_data (4 * ucast cap) True,
                   Create_boot_image cfg bops err n, Free File_data, Deinit_bif_cfg]
               @ frees di dout"
  | (no_output) esize cap n img where "esize = estimate_boot_image_size e cfg" "esize \<noteq> 0"
      "esize_aligned_loop 2 esize = Some cap"
      "malloc e File_data (4 * ucast cap)"
      "create_boot_image e cfg bops = (0, n, img)"
      "output = None"
      "out = Crash"
      "tr = tr0 @ [Estimate_boot_image_size cfg esize, Malloc File_data (4 * ucast cap) True,
                   Create_boot_image cfg bops 0 n]"
  | (open_error) esize cap n img bin where "esize = estimate_boot_image_size e cfg" "esize \<noteq> 0"
      "esize_aligned_loop 2 esize = Some cap"
      "malloc e File_data (4 * ucast cap)"
      "create_boot_image e cfg bops = (0, n, img)"
      "output = Some bin" "\<not> fopen e bin ''wb''"
      "out = Return (ERROR_CANT_WRITE e)"
      "tr = tr0 @ [Estimate_boot_image_size cfg esize, Malloc File_data (4 * ucast cap) True,
                   Create_boot_image cfg bops 0 n, Fopen bin ''wb'' False,
                   Errorf (''could not open output file: '' @ bin @ newline),
                   Free File_data, Deinit_bif_cfg]
               @ frees di dout"
  | (written) esize cap n img bin where "esize = estimate_boot_image_size e cfg" "esize \<noteq> 0"
      "esize_aligned_loop 2 esize = Some cap"
      "malloc e File_data (4 * ucast cap)"
      "create_boot_image e cfg bops = (0, n, img)"
      "output = Some bin" "fopen e bin ''wb''"
      "out = Return EXIT_SUCCESS"
      "tr = tr0 @ [Estimate_boot_image_size cfg esize, Malloc File_data (4 * ucast cap) True,
                   Create_boot_image cfg bops 0 n, Fopen bin ''wb'' True,
                   Fwrite (map img [0 ..< unat n]), Fclose, Free File_data,
                   Printf (''All done, quitting'' @ newline), Deinit_bif_cfg]
               @ frees di dout"
  using assms
  unfolding main_image_def Let_def cleanup_no_file_def cleanup_cfg_def cleanup_def frees_def
  by (auto split: if_splits option.splits prod.splits)

lemma main_parse_eq:
  "main_parse e a bif output di dout tr0 =
     (if bit2bin a \<and> \<not> malloc e Bif_buf (word_of_nat (length (bit2bin_text bif) + 1))
      then (Return (ERROR_NOMEM e),
            tr0 @ banner e
              @ [Malloc Bif_buf (word_of_nat (length (bit2bin_text bif) + 1)) False])
      else if fst (parse_result e a bif) \<noteq> 0
      then (Return (fst (parse_result e a bif)),
            tr0 @ banner e @ parse_events e a bif @ [Deinit_bif_cfg] @ frees di dout)
      else if nodes_num (snd (parse_result e a bif)) = 0
      then (Return (ERROR_BOOTROM_NOFILE e),
            tr0 @ banner e @ parse_events e a bif @ [Deinit_bif_cfg] @ frees di dout)
      else if parse_only a
      then (Return EXIT_SUCCESS,
            tr0 @ banner e @ parse_events e a bif @ report bif (snd (parse_result e a bif))
              @ [Printf (''The source BIF has a correct syntax'' @ newline), Deinit_bif_cfg]
              @ frees di dout)
      else main_image e output (snd (parse_result e a bif)) (selected_bops a) di dout
             (tr0 @ banner e @ parse_events e a bif
                @ report bif (snd (parse_result e a bif))))"
  unfolding main_parse_def Let_def cleanup_no_file_def cleanup_cfg_def cleanup_def frees_def
    parse_result_def parse_events_def banner_def report_def start_cfg_def selected_bops_def
    bit2bin_text_def
  by (simp split: prod.splits)

lemma main_parse_cases [consumes 1, case_names bif_buf_nomem parse_error no_nodes parse_only image]:
  assumes "main_parse e a bif output di dout tr0 = (out, tr)"
  obtains
    (bif_buf_nomem) "bit2bin a"
      "\<not> malloc e Bif_buf (word_of_nat (length (bit2bin_text bif) + 1))"
      "out = Return (ERROR_NOMEM e)"
      "tr = tr0 @ banner e
              @ [Malloc Bif_buf (word_of_nat (length (bit2bin_text bif) + 1)) False]"
  | (parse_error) err cfg where "parse_result e a bif = (err, cfg)" "err \<noteq> 0"
      "bit2bin a \<longrightarrow> malloc e Bif_buf (word_of_nat (length (bit2bin_text bif) + 1))"
      "out = Return err"
      "tr = tr0 @ banner e @ parse_events e a bif @ [Deinit_bif_cfg] @ frees di dout"
  | (no_nodes) cfg where "parse_result e a bif = (0, cfg)" "nodes_num cfg = 0"
      "bit2bin a \<longrightarrow> malloc e Bif_buf (word_of_nat (length (bit2bin_text bif) + 1))"
      "out = Return (ERROR_BOOTROM_NOFILE e)"
      "tr = tr0 @ banner e @ parse_events e a bif @ [Deinit_bif_cfg] @ frees di dout"
  | (parse_only) cfg where "parse_result e a bif = (0, cfg)" "nodes_num cfg \<noteq> 0"
      "bit2bin a \<longrightarrow> malloc e Bif_buf (word_of_nat (length (bit2bin_text bif) + 1))"
      "parse_only a"
      "out = Return EXIT_SUCCESS"
      "tr = tr0 @ banner e @ parse_events e a bif @ report bif cfg
              @ [Printf (''The source BIF has a correct syntax'' @ newline), Deinit_bif_cfg]
              @ frees di dout"
  | (image) cfg where "parse_result e a bif = (0, cfg)" "nodes_num cfg \<noteq> 0"
      "bit2bin a \<longrightarrow> malloc e Bif_buf (word_of_nat (length (bit2bin_text bif) + 1))"
      "\<not> parse_only a"
      "main_image e output cfg (selected_bops a) di dout
         (tr0 @ banner e @ parse_events e a bif @ report bif cfg) = (out, tr)"
  using assms unfolding main_parse_eq
  by (cases "parse_result e a bif") (auto split: if_splits)

lemma derive_filename_eq':
  "derive_filename e blk src new_ext tr =
     (if malloc e blk (size_for src new_ext)
      then (Some (derived_name src new_ext), tr @ [Malloc blk (size_for src new_ext) True])
      else (None, tr @ [Malloc blk (size_for src new_ext) False]))"
  by (simp add: derive_filename_eq size_for_def Let_def)

lemma main_cases_names [consumes 1, case_names no_names input_nomem output_nomem named]:
  assumes "main e a = (out, tr)"
  obtains
    (no_names) "bif_filename a = None" "bin_filename a = None" "out = Crash" "tr = []"
  | (input_nomem) bin where "bif_filename a = None" "bin_filename a = Some bin"
      "\<not> malloc e Derived_input (size_for bin (input_ext a))"
      "out = Return (ERROR_NOMEM e)"
      "tr = allocs_in a False"
  | (output_nomem) "bif_filename a \<noteq> None \<or> bin_filename a \<noteq> None"
      "derives_out a"
      "\<not> malloc e Derived_output (size_for (name_in a) ''.bin'')"
      "out = Return (ERROR_NOMEM e)"
      "tr = allocs_in a True @ allocs_out a False @ free_ptr Derived_input (derived_in a)"
  | (named) "bif_filename a \<noteq> None \<or> bin_filename a \<noteq> None"
      "\<not> parse_only a \<longrightarrow> name_out a \<noteq> None"
      "main_parse e a (name_in a) (name_out a) (derived_in a) (derived_out a)
         (allocs_in a True @ allocs_out a True) = (out, tr)"
proof (cases "bif_filename a")
  case None
  note bif = this
  show ?thesis
  proof (cases "bin_filename a")
    case None
    with bif assms show ?thesis
      by (intro no_names) (simp_all add: main_def)
  next
    case (Some bin)
    show ?thesis
    proof (cases "malloc e Derived_input (size_for bin (input_ext a))")
      case False
      with bif Some assms show ?thesis
        by (intro input_nomem [of bin])
           (auto simp: main_def derive_filename_eq' input_ext_def allocs_in_def cleanup_def
              free_ptr_def)
    next
      case True
      with bif Some assms show ?thesis
        by (intro named)
           (auto simp: main_def derive_filename_eq' input_ext_def allocs_in_def cleanup_def
              free_ptr_def name_in_def name_out_def derived_in_def derived_out_def
              allocs_out_def derives_out_def split: if_splits)
    qed
  qed
next
  case (Some bif)
  show ?thesis
  proof (cases "derives_out a \<and> \<not> malloc e Derived_output (size_for bif ''.bin'')")
    case True
    with Some assms show ?thesis
      by (intro output_nomem)
         (auto simp: main_def derive_filename_eq' allocs_in_def cleanup_def
            free_ptr_def name_in_def derived_in_def allocs_out_def derives_out_def
            split: if_splits)
  next
    case False
    with Some assms show ?thesis
      by (intro named)
         (auto simp: main_def derive_filename_eq' allocs_in_def cleanup_def
            free_ptr_def name_in_def name_out_def derived_in_def derived_out_def
            allocs_out_def derives_out_def split: if_splits)
  qed
qed

lemma main_cases [consumes 1, case_names Crash_no_names Nomem_input Nomem_output Nomem_bif_buf
    Parse_error No_nodes Parse_only Nothing Hang Nomem_image Compose_error Open_error Written]:
  assumes "main e a = (out, tr)"
  obtains
    (Crash_no_names) "bif_filename a = None" "bin_filename a = None" "out = Crash" "tr = []"
  | (Nomem_input) bin where "bif_filename a = None" "bin_filename a = Some bin"
      "\<not> malloc e Derived_input (size_for bin (input_ext a))"
      "out = Return (ERROR_NOMEM e)"
      "tr = allocs_in a False"
  | (Nomem_output) "bif_filename a \<noteq> None \<or> bin_filename a \<noteq> None"
      "derives_out a"
      "\<not> malloc e Derived_output (size_for (name_in a) ''.bin'')"
      "out = Return (ERROR_NOMEM e)"
      "tr = allocs_in a True @ allocs_out a False @ free_ptr Derived_input (derived_in a)"
  | (Nomem_bif_buf) "bif_filename a \<noteq> None \<or> bin_filename a \<noteq> None"
      "bit2bin a"
      "\<not> malloc e Bif_buf (word_of_nat (length (bit2bin_text (name_in a)) + 1))"
      "out = Return (ERROR_NOMEM e)"
      "tr = prologue e a
              @ [Malloc Bif_buf (word_of_nat (length (bit2bin_text (name_in a)) + 1)) False]"
  | (Parse_error) err cfg where "bif_filename a \<noteq> None \<or> bin_filename a \<noteq> None"
      "parse_result e a (name_in a) = (err, cfg)" "err \<noteq> 0"
      "out = Return err"
      "tr = prologue e a @ parse_events e a (name_in a) @ epilogue a"
  | (No_nodes) cfg where "bif_filename a \<noteq> None \<or> bin_filename a \<noteq> None"
      "parse_result e a (name_in a) = (0, cfg)" "nodes_num cfg = 0"
      "out = Return (ERROR_BOOTROM_NOFILE e)"
      "tr = prologue e a @ parse_events e a (name_in a) @ epilogue a"
  | (Parse_only) cfg where "bif_filename a \<noteq> None \<or> bin_filename a \<noteq> None"
      "parse_result e a (name_in a) = (0, cfg)" "nodes_num cfg \<noteq> 0"
      "parse_only a"
      "out = Return EXIT_SUCCESS"
      "tr = prologue e a @ parse_events e a (name_in a) @ report (name_in a) cfg
              @ [Printf (''The source BIF has a correct syntax'' @ newline)] @ epilogue a"
  | (Nothing) cfg where "bif_filename a \<noteq> None \<or> bin_filename a \<noteq> None"
      "parse_result e a (name_in a) = (0, cfg)" "nodes_num cfg \<noteq> 0"
      "\<not> parse_only a"
      "estimate_boot_image_size e cfg = 0"
      "out = Return (ERROR_BOOTROM_NOFILE e)"
      "tr = prologue e a @ parse_events e a (name_in a) @ report (name_in a) cfg
              @ [Estimate_boot_image_size cfg 0] @ epilogue a"
  | (Hang) cfg esize where "bif_filename a \<noteq> None \<or> bin_filename a \<noteq> None"
      "parse_result e a (name_in a) = (0, cfg)" "nodes_num cfg \<noteq> 0"
      "\<not> parse_only a"
      "esize = estimate_boot_image_size e cfg" "esize \<noteq> 0"
      "esize_aligned_loop 2 esize = None"
      "out = Hang"
      "tr = prologue e a @ parse_events e a (name_in a) @ report (name_in a) cfg
              @ [Estimate_boot_image_size cfg esize]"
  | (Nomem_image) cfg esize cap where "bif_filename a \<noteq> None \<or> bin_filename a \<noteq> None"
      "parse_result e a (name_in a) = (0, cfg)" "nodes_num cfg \<noteq> 0"
      "\<not> parse_only a"
      "esize = estimate_boot_image_size e cfg" "esize \<noteq> 0"
      "esize_aligned_loop 2 esize = Some cap"
      "\<not> malloc e File_data (4 * ucast cap)"
      "out = Return (ERROR_NOMEM e)"
      "tr = prologue e a @ parse_events e a (name_in a) @ report (name_in a) cfg
              @ [Estimate_boot_image_size cfg esize, Malloc File_data (4 * ucast cap) False]
              @ epilogue a"
  | (Compose_error) cfg esize cap err n img where
      "bif_filename a \<noteq> None \<or> bin_filename a \<noteq> None"
      "parse_result e a (name_in a) = (0, cfg)" "nodes_num cfg \<noteq> 0"
      "\<not> parse_only a"
      "esize = estimate_boot_image_size e cfg" "esize \<noteq> 0"
      "esize_aligned_loop 2 esize = Some cap"
      "malloc e File_data (4 * ucast cap)"
      "create_boot_image e cfg (selected_bops a) = (err, n, img)" "err \<noteq> 0"
      "out = Return err"
      "tr = prologue e a @ parse_events e a (name_in a) @ report (name_in a) cfg
              @ [Estimate_boot_image_size cfg esize, Malloc File_data (4 * ucast cap) True,
                 Create_boot_image cfg (selected_bops a) err n, Free File_data]
              @ epilogue a"
  | (Open_error) cfg esize cap n img bin where
      "bif_filename a \<noteq> None \<or> bin_filename a \<noteq> None"
      "parse_result e a (name_in a) = (0, cfg)" "nodes_num cfg \<noteq> 0"
      "\<not> parse_only a"
      "esize = estimate_boot_image_size e cfg" "esize \<noteq> 0"
      "esize_aligned_loop 2 esize = Some cap"
      "malloc e File_data (4 * ucast cap)"
      "create_boot_image e cfg (selected_bops a) = (0, n, img)"
      "name_out a = Some bin" "\<not> fopen e bin ''wb''"
      "out = Return (ERROR_CANT_WRITE e)"
      "tr = prologue e a @ parse_events e a (name_in a) @ report (name_in a) cfg
              @ [Estimate_boot_image_size cfg esize, Malloc File_data (4 * ucast cap) True,
                 Create_boot_image cfg (selected_bops a) 0 n, Fopen bin ''wb'' False,
                 Errorf (''could not open output file: '' @ bin @ newline), Free File_data]
              @ epilogue a"
  | (Written) cfg esize cap n img bin where
      "bif_filename a \<noteq> None \<or> bin_filename a \<noteq> None"
      "parse_result e a (name_in a) = (0, cfg)" "nodes_num cfg \<noteq> 0"
      "\<not> parse_only a"
      "esize = estimate_boot_image_size e cfg" "esize \<noteq> 0"
      "esize_aligned_loop 2 esize = Some cap"
      "malloc e File_data (4 * ucast cap)"
      "create_boot_image e cfg (selected_bops a) = (0, n, img)"
      "name_out a = Some bin" "fopen e bin ''wb''"
      "out = Return EXIT_SUCCESS"
      "tr = prologue e a @ parse_events e a (name_in a) @ report (name_in a) cfg
              @ [Estimate_boot_image_size cfg esize, Malloc File_data (4 * ucast cap) True,
                 Create_boot_image cfg (selected_bops a) 0 n, Fopen bin ''wb'' True,
                 Fwrite (map img [0 ..< unat n]), Fclose, Free File_data,
                 Printf (''All done, quitting'' @ newline)]
              @ epilogue a"
  using assms
proof (cases rule: main_cases_names)
  case no_names
  then show ?thesis by (intro Crash_no_names)
next
  case (input_nomem bin)
  then show ?thesis by (intro Nomem_input)
next
  case output_nomem
  then show ?thesis by (intro Nomem_output)
next
  case named
  from named(3) show ?thesis
  proof (cases rule: main_parse_cases)
    case bif_buf_nomem
    with named show ?thesis
      by (intro Nomem_bif_buf) (simp_all add: prologue_def)
  next
    case (parse_error err cfg)
    with named show ?thesis
      by (intro Parse_error [of err cfg]) (simp_all add: prologue_def epilogue_def)
  next
    case (no_nodes cfg)
    with named show ?thesis
      by (intro No_nodes [of cfg]) (simp_all add: prologue_def epilogue_def)
  next
    case (parse_only cfg)
    with named show ?thesis
      by (intro Parse_only [of cfg]) (simp_all add: prologue_def epilogue_def)
  next
    case (image cfg)
    note im = this
    from im(5) show ?thesis
    proof (cases rule: main_image_cases)
      case nothing
      with named im show ?thesis
        by (intro Nothing [of cfg]) (simp_all add: prologue_def epilogue_def)
    next
      case (hang esize)
      with named im show ?thesis
        by (intro Hang [of cfg esize]) (simp_all add: prologue_def epilogue_def)
    next
      case (nomem esize cap)
      with named im show ?thesis
        by (intro Nomem_image [of cfg esize cap]) (simp_all add: prologue_def epilogue_def)
    next
      case (compose_error esize cap err n img)
      with named im show ?thesis
        by (intro Compose_error [of cfg esize cap err n img])
           (simp_all add: prologue_def epilogue_def)
    next
      case (no_output esize cap n img)
      with named im show ?thesis by simp
    next
      case (open_error esize cap n img bin)
      with named im show ?thesis
        by (intro Open_error [of cfg esize cap n img bin])
           (simp_all add: prologue_def epilogue_def)
    next
      case (written esize cap n img bin)
      with named im show ?thesis
        by (intro Written [of cfg esize cap n img bin])
           (simp_all add: prologue_def epilogue_def)
    qed
  qed
qed

lemma main_crash:
  assumes "main e a = (out, tr)"
  shows "out = Crash \<longleftrightarrow> bif_filename a = None \<and> bin_filename a = None"
  using assms by (cases rule: main_cases) (auto simp: EXIT_SUCCESS_def)

subsection \<open>Events by kind\<close>

lemma print_node_is_print: "ev \<in> set (print_node n) \<Longrightarrow> \<exists>s. ev = Printf s"
  by (auto simp: print_node_def split: if_splits)

lemma print_nodes_is_print: "ev \<in> set (print_nodes cfg i) \<Longrightarrow> \<exists>s. ev = Printf s"
proof (induction cfg i rule: print_nodes.induct)
  case (1 cfg i)
  from "1.prems" have "i < nodes_num cfg"
    and "ev \<in> set (print_node (nodes cfg ! i)) \<or> ev \<in> set (print_nodes cfg (i + 1))"
    by (subst (asm) print_nodes.simps, simp split: if_splits)+
  with "1.IH" show ?case
    using print_node_is_print by blast
qed

lemma report_is_print: "ev \<in> set (report bif cfg) \<Longrightarrow> \<exists>s. ev = Printf s"
  using print_nodes_is_print by (auto simp: report_def)

lemmas trace_defs =
  prologue_def epilogue_def allocs_in_def allocs_out_def banner_def
  frees_def free_ptr_def

lemma prologue_housekeeping: "ev \<in> set (prologue e a) \<Longrightarrow> housekeeping ev"
  by (auto simp: trace_defs housekeeping_def split: option.splits if_splits)

lemma epilogue_housekeeping: "ev \<in> set (epilogue a) \<Longrightarrow> housekeeping ev"
  by (auto simp: trace_defs housekeeping_def split: option.splits if_splits)

lemma report_housekeeping: "ev \<in> set (report bif cfg) \<Longrightarrow> housekeeping ev"
  by (auto simp: housekeeping_def dest: report_is_print)

lemma not_housekeeping [simp]:
  "\<not> housekeeping ev \<Longrightarrow> ev \<notin> set (prologue e a)"
  "\<not> housekeeping ev \<Longrightarrow> ev \<notin> set (epilogue a)"
  "\<not> housekeeping ev \<Longrightarrow> ev \<notin> set (report bif cfg)"
  using prologue_housekeeping epilogue_housekeeping report_housekeeping by blast+

lemma in_parse_events:
  "ev \<in> set (parse_events e a bif) \<longleftrightarrow>
     (if bit2bin a
      then ev = Malloc Bif_buf (word_of_nat (length (bit2bin_text bif) + 1)) True
           \<or> ev = Bif_parse_buf (bit2bin_text bif) (word_of_nat (length (bit2bin_text bif)))
                   ''<bit2bin>'' (start_cfg e a)
                   (fst (parse_result e a bif)) (snd (parse_result e a bif))
           \<or> ev = Free Bif_buf
      else ev = Bif_parse bif (start_cfg e a)
                  (fst (parse_result e a bif)) (snd (parse_result e a bif)))"
  by (auto simp: parse_events_def)

lemma ball_housekeeping:
  assumes "\<And>ev. housekeeping ev \<Longrightarrow> P ev"
  shows "\<forall>ev\<in>set (prologue e a). P ev" and "\<forall>ev\<in>set (epilogue a). P ev"
    and "\<forall>ev\<in>set (report bif cfg). P ev"
  by (intro ballI assms prologue_housekeeping epilogue_housekeeping report_housekeeping,
      assumption)+

lemma filter_housekeeping:
  assumes "\<And>ev. housekeeping ev \<Longrightarrow> \<not> P ev"
  shows "filter P (prologue e a) = []" and "filter P (epilogue a) = []"
    and "filter P (report bif cfg) = []"
  using ball_housekeeping [of "\<lambda>ev. \<not> P ev", OF assms]
  by (simp_all add: filter_empty_conv)

lemma housekeeping_not_fwrite: "housekeeping ev \<Longrightarrow> \<not> is_fwrite ev"
  by (cases ev) (auto simp: housekeeping_def is_fwrite_def)

lemma is_fwrite_simps [simp]:
  "is_fwrite (Fwrite ws)"
  "\<not> is_fwrite (Malloc blk sz ok)"
  "\<not> is_fwrite (Free blk)"
  "\<not> is_fwrite (Printf s)"
  "\<not> is_fwrite (Errorf s)"
  "\<not> is_fwrite Init_bif_cfg"
  "\<not> is_fwrite Deinit_bif_cfg"
  "\<not> is_fwrite (Bif_parse f c r c')"
  "\<not> is_fwrite (Bif_parse_buf t l lbl c r c')"
  "\<not> is_fwrite (Estimate_boot_image_size c z)"
  "\<not> is_fwrite (Create_boot_image c b r k)"
  "\<not> is_fwrite (Fopen p m ok)"
  "\<not> is_fwrite Fclose"
  by (simp_all add: is_fwrite_def)

lemma filter_fwrite [simp]:
  "filter is_fwrite (prologue e a) = []"
  "filter is_fwrite (epilogue a) = []"
  "filter is_fwrite (report bif cfg) = []"
  "filter is_fwrite (parse_events e a bif) = []"
  using filter_housekeeping [of is_fwrite, OF housekeeping_not_fwrite]
  by (simp_all add: parse_events_def)

lemma housekeeping_not_failed: "housekeeping ev \<Longrightarrow> \<not> failed ev"
  by (cases ev) (auto simp: housekeeping_def failed_def)

lemmas no_failed = ball_housekeeping [of "\<lambda>ev. \<not> failed ev", OF housekeeping_not_failed]

lemma failed_simps [simp]:
  "failed (Malloc blk sz ok) \<longleftrightarrow> \<not> ok"
  "failed (Bif_parse f c r c') \<longleftrightarrow> r \<noteq> 0"
  "failed (Bif_parse_buf t l lbl c r c') \<longleftrightarrow> r \<noteq> 0"
  "failed (Estimate_boot_image_size c z) \<longleftrightarrow> z = 0"
  "failed (Create_boot_image c b r k) \<longleftrightarrow> r \<noteq> 0"
  "\<not> failed (Free blk)"
  "\<not> failed (Printf s)"
  "\<not> failed (Errorf s)"
  "\<not> failed Init_bif_cfg"
  "\<not> failed Deinit_bif_cfg"
  "\<not> failed (Fopen p m ok)"
  "\<not> failed (Fwrite ws)"
  "\<not> failed Fclose"
  by (simp_all add: failed_def)

lemma no_failed_parse_events:
  "fst (parse_result e a bif) = 0 \<Longrightarrow> \<forall>ev\<in>set (parse_events e a bif). \<not> failed ev"
  by (simp add: parse_events_def)

lemma builds_image_simps [simp]:
  "builds_image (Malloc blk sz ok) \<longleftrightarrow> blk = File_data"
  "builds_image (Free blk) \<longleftrightarrow> blk = File_data"
  "builds_image (Estimate_boot_image_size c z)"
  "builds_image (Create_boot_image c b r k)"
  "builds_image (Fopen p m ok)"
  "builds_image (Fwrite ws)"
  "builds_image Fclose"
  "\<not> builds_image (Printf s)"
  "\<not> builds_image (Errorf s)"
  "\<not> builds_image Init_bif_cfg"
  "\<not> builds_image Deinit_bif_cfg"
  "\<not> builds_image (Bif_parse f c r c')"
  "\<not> builds_image (Bif_parse_buf t l lbl c r c')"
  by (simp_all add: builds_image_def)

lemma touches_output_simps [simp]:
  "touches_output (Malloc blk sz ok) \<longleftrightarrow> blk = File_data \<or> blk = Derived_output"
  "touches_output (Free blk) \<longleftrightarrow> blk = File_data \<or> blk = Derived_output"
  "touches_output (Estimate_boot_image_size c z)"
  "touches_output (Create_boot_image c b r k)"
  "touches_output (Fopen p m ok)"
  "touches_output (Fwrite ws)"
  "touches_output Fclose"
  "\<not> touches_output (Printf s)"
  "\<not> touches_output (Errorf s)"
  "\<not> touches_output Init_bif_cfg"
  "\<not> touches_output Deinit_bif_cfg"
  "\<not> touches_output (Bif_parse f c r c')"
  "\<not> touches_output (Bif_parse_buf t l lbl c r c')"
  by (simp_all add: touches_output_def)

lemma housekeeping_not_builds: "housekeeping ev \<Longrightarrow> \<not> builds_image ev"
  by (cases ev) (auto simp: housekeeping_def)

lemmas no_builds = ball_housekeeping [of "\<lambda>ev. \<not> builds_image ev", OF housekeeping_not_builds]

lemma no_builds_parse_events: "\<forall>ev\<in>set (parse_events e a bif). \<not> builds_image ev"
  by (simp add: parse_events_def)

lemma no_touch_parse_events: "\<forall>ev\<in>set (parse_events e a bif). \<not> touches_output ev"
  by (simp add: parse_events_def)

lemma no_touch_report: "\<forall>ev\<in>set (report bif cfg). \<not> touches_output ev"
  using report_is_print by fastforce

lemma no_touch_parse_only:
  assumes "parse_only a"
  shows "\<forall>ev\<in>set (prologue e a). \<not> touches_output ev"
    and "\<forall>ev\<in>set (epilogue a). \<not> touches_output ev"
    and "\<forall>ev\<in>set (allocs_in a ok). \<not> touches_output ev"
  using assms
  by (auto simp: prologue_def epilogue_def allocs_in_def allocs_out_def derives_out_def
        banner_def frees_def free_ptr_def derived_out_def split: option.splits)

lemma is_parse_simps [simp]:
  "is_parse (Bif_parse f c r c')"
  "is_parse (Bif_parse_buf t l lbl c r c')"
  "\<not> is_parse (Malloc blk sz ok)"
  "\<not> is_parse (Free blk)"
  "\<not> is_parse (Printf s)"
  "\<not> is_parse (Errorf s)"
  "\<not> is_parse Init_bif_cfg"
  "\<not> is_parse Deinit_bif_cfg"
  "\<not> is_parse (Estimate_boot_image_size c z)"
  "\<not> is_parse (Create_boot_image c b r k)"
  "\<not> is_parse (Fopen p m ok)"
  "\<not> is_parse (Fwrite ws)"
  "\<not> is_parse Fclose"
  by (simp_all add: is_parse_def)

lemma housekeeping_not_parse: "housekeeping ev \<Longrightarrow> \<not> is_parse ev"
  by (cases ev) (auto simp: housekeeping_def)

lemma filter_parse:
  "filter is_parse (prologue e a) = []"
  "filter is_parse (epilogue a) = []"
  "filter is_parse (report bif cfg) = []"
  using filter_housekeeping [of is_parse, OF housekeeping_not_parse]
  by simp_all

lemma length_filter_parse_events: "length (filter is_parse (parse_events e a bif)) = 1"
  by (simp add: parse_events_def)

lemma filter_parse_allocs_in: "filter is_parse (allocs_in a ok) = []"
  by (simp add: allocs_in_def split: option.splits)

lemma filter_parse_allocs_out: "filter is_parse (allocs_out a ok) = []"
  by (simp add: allocs_out_def)

lemma filter_parse_free_ptr: "filter is_parse (free_ptr blk p) = []"
  by (simp add: free_ptr_def split: option.splits)

lemma parse_result_alt:
  "parse_result e a bif = (r, cfg) \<Longrightarrow>
     fst (parse_result e a bif) = r \<and> snd (parse_result e a bif) = cfg"
  by simp

lemma is_create_simps [simp]:
  "is_create (Create_boot_image c b r k)"
  "\<not> is_create (Bif_parse f c r c')"
  "\<not> is_create (Bif_parse_buf t l lbl c r c')"
  "\<not> is_create (Malloc blk sz ok)"
  "\<not> is_create (Free blk)"
  "\<not> is_create (Printf s)"
  "\<not> is_create (Errorf s)"
  "\<not> is_create Init_bif_cfg"
  "\<not> is_create Deinit_bif_cfg"
  "\<not> is_create (Estimate_boot_image_size c z)"
  "\<not> is_create (Fopen p m ok)"
  "\<not> is_create (Fwrite ws)"
  "\<not> is_create Fclose"
  by (simp_all add: is_create_def)

lemma is_release_simps [simp]:
  "is_release (Free blk)"
  "is_release Deinit_bif_cfg"
  "\<not> is_release (Create_boot_image c b r k)"
  "\<not> is_release (Bif_parse f c r c')"
  "\<not> is_release (Bif_parse_buf t l lbl c r c')"
  "\<not> is_release (Malloc blk sz ok)"
  "\<not> is_release (Printf s)"
  "\<not> is_release (Errorf s)"
  "\<not> is_release Init_bif_cfg"
  "\<not> is_release (Estimate_boot_image_size c z)"
  "\<not> is_release (Fopen p m ok)"
  "\<not> is_release (Fwrite ws)"
  "\<not> is_release Fclose"
  by (simp_all add: is_release_def)

lemma housekeeping_not_create: "housekeeping ev \<Longrightarrow> \<not> is_create ev"
  by (cases ev) (auto simp: housekeeping_def)

lemma filter_create:
  "filter is_create (prologue e a) = []"
  "filter is_create (epilogue a) = []"
  "filter is_create (report bif cfg) = []"
  "filter is_create (parse_events e a bif) = []"
  "filter is_create (allocs_in a ok) = []"
  "filter is_create (allocs_out a ok) = []"
  "filter is_create (free_ptr blk p) = []"
  using filter_housekeeping [of is_create, OF housekeeping_not_create]
  by (simp_all add: parse_events_def allocs_in_def allocs_out_def free_ptr_def
        split: option.splits)

lemma epilogue_releases: "\<forall>x\<in>set (epilogue a). is_release x"
  by (auto simp: epilogue_def frees_def free_ptr_def split: option.splits)

lemma parse_counts:
  "length (filter is_parse (prologue e a @ parse_events e a bif @ rest))
     = 1 + length (filter is_parse rest)"
  by (simp add: filter_parse length_filter_parse_events)

subsection \<open>What a run returns, and the names it uses\<close>

lemma main_image_fst:
  "fst (main_image e output cfg bops di dout tr0) = image_outcome e output cfg bops"
  by (simp add: image_outcome_def main_image_def Let_def cleanup_no_file_def cleanup_cfg_def
        cleanup_def split: option.splits prod.splits)

lemma main_parse_fst:
  "fst (main_parse e a bif output di dout tr0) =
     (if bit2bin a \<and> \<not> malloc e Bif_buf (word_of_nat (length (bit2bin_text bif) + 1))
      then Return (ERROR_NOMEM e)
      else if fst (parse_result e a bif) \<noteq> 0 then Return (fst (parse_result e a bif))
      else if nodes_num (snd (parse_result e a bif)) = 0 then Return (ERROR_BOOTROM_NOFILE e)
      else if parse_only a then Return EXIT_SUCCESS
      else image_outcome e output (snd (parse_result e a bif)) (selected_bops a))"
  by (simp add: main_parse_eq main_image_fst)

lemma main_given:
  "bif_filename a = Some bif \<Longrightarrow>
     main e a =
       (if derives_out a
        then (if malloc e Derived_output (size_for bif ''.bin'')
              then main_parse e a bif (Some (derived_name bif ''.bin'')) None
                     (Some (derived_name bif ''.bin''))
                     [Malloc Derived_output (size_for bif ''.bin'') True]
              else (Return (ERROR_NOMEM e), [Malloc Derived_output (size_for bif ''.bin'') False]))
        else main_parse e a bif (bin_filename a) None None [])"
  by (simp add: main_def derive_filename_eq' derives_out_def cleanup_def free_ptr_def)

lemma bit2bin_same_outcome:
  assumes "bif_filename a = Some bif" and "bit2bin a"
    and "malloc e Bif_buf (word_of_nat (length (bit2bin_text bif) + 1))"
    and "bif_parse_buf e (bit2bin_text bif) (word_of_nat (length (bit2bin_text bif)))
           ''<bit2bin>'' (start_cfg e a) = bif_parse e bif (start_cfg e a)"
  shows "fst (main e (a\<lparr>bit2bin := False\<rparr>)) = fst (main e a)"
proof -
  let ?a = "a\<lparr>bit2bin := False\<rparr>"
  have pr: "parse_result e ?a bif = parse_result e a bif"
    using assms by (simp add: parse_result_def start_cfg_def)
  have same: "derives_out ?a = derives_out a" "selected_bops ?a = selected_bops a"
    "bin_filename ?a = bin_filename a" "parse_only ?a = parse_only a"
    "bif_filename ?a = Some bif"
    using assms(1) by (simp_all add: derives_out_def selected_bops_def)
  show ?thesis
    using assms(2,3)
    by (simp add: main_given [OF assms(1)] main_given [OF same(5)] same pr main_parse_fst)
qed

lemma name_in_given: "bif_filename a = Some bif \<Longrightarrow> name_in a = bif"
  by (simp add: name_in_def)

lemma name_in_derived:
  "bif_filename a = None \<Longrightarrow> bin_filename a = Some bin \<Longrightarrow>
     name_in a = replace_extension bin (if bit2bin a then ''.bit'' else ''.bif'')"
  by (simp add: name_in_def input_ext_def derived_name_spec)

lemma size_for_spec:
  "size_for src new_ext = word_of_nat (length (replace_extension src new_ext) + 1)"
  using prefix_length_le [of src]
  by (simp add: size_for_def derived_name_spec [symmetric] derived_name_def min_def)

lemma name_out_derived:
  "bin_filename a = None \<Longrightarrow> bif_filename a = Some bif \<Longrightarrow> name_out a = Some p \<Longrightarrow>
     p = replace_extension bif ''.bin''"
  by (auto simp: name_out_def derives_out_def name_in_def derived_name_spec split: if_splits)




subsection \<open>The example runs, evaluated\<close>

lemma upt_0_3: "[0 ..< 3] = [0, 1, 2]"
  by (simp add: eval_nat_numeral)

lemma length_newline: "length newline = 1"
  by (simp add: newline_def)

lemmas run_defs =
  main_def main_parse_def main_image_def derive_filename_def Let_def
  slash_def backslash_def dot_char_def
  cleanup_def cleanup_cfg_def cleanup_no_file_def free_ptr_def
  print_nodes.simps nodes_num_def print_node_def hex08_def hex_digit_def
  EXIT_SUCCESS_def upt_0_3 length_newline
  demo_env_def demo_args_def demo_nodes_def demo_cfg_def demo_start_cfg_def demo_report_def

lemma main_demo: "main demo_env demo_args = (Return 0, demo_trace)"
  by (simp add: run_defs loop_step loop_stop demo_trace_def)

lemma main_parse_error: "main env_parse_error demo_args = (Return 4, parse_error_trace)"
  by (simp add: run_defs env_parse_error_def parse_error_trace_def)

lemma main_read_only: "main env_read_only demo_args = (Return 9, read_only_trace)"
  by (simp add: run_defs loop_step loop_stop env_read_only_def read_only_trace_def)

lemma main_inspect: "main demo_env args_inspect = (Return 0, inspect_trace)"
  by (simp add: run_defs args_inspect_def inspect_trace_def)

lemma main_inspect_empty: "main env_empty args_inspect_empty = (Return 1, inspect_empty_trace)"
  by (simp add: run_defs env_empty_def args_inspect_empty_def inspect_empty_trace_def)

lemma main_inspect_named: "main env_empty args_inspect_named = (Return 1, inspect_named_trace)"
  by (simp add: run_defs env_empty_def args_inspect_named_def inspect_named_trace_def)


lemma main_bit2bin_ordinary:
  "fst (main env_bit (args_bit2bin\<lparr>bit2bin := False\<rparr>)) = Return 0"
  by (simp add: run_defs loop_step loop_stop env_bit_def args_bit2bin_def bit_cfg_def)

lemma main_bit2bin_named:
  "main demo_env args_bit2bin_named = (Return 0, bit2bin_named_trace)"
  by (simp add: run_defs loop_step loop_stop args_bit2bin_named_def bit_cfg_def
        bit2bin_named_trace_def)

lemma main_compose_error:
  "main env_compose_error demo_args = (Return 5, compose_error_trace)"
  by (simp add: run_defs loop_step loop_stop env_compose_error_def compose_error_trace_def)

lemma main_bad_bit: "main env_bad_bit args_bit2bin = (Return 6, bad_bit_trace)"
  by (simp add: run_defs env_bad_bit_def args_bit2bin_def bad_bit_trace_def)



lemma main_huge: "main env_huge demo_args = (Hang, huge_trace)"
  by (simp add: run_defs loop_diverges env_huge_def huge_trace_def)

section \<open>The claims\<close>

text \<open>
  C1. In every run whose image composition succeeded, the driver writes the first
  \<open>ofile_size\<close> words of the buffer, the count the compositor returned, in a single
  \<open>fwrite\<close> when the output file could be opened, and writes nothing otherwise. The
  capacity of the allocation plays no part: the words beyond \<open>ofile_size\<close> are dropped.
\<close>

theorem writes_exactly_ofile_size:
  assumes "main e a = (out, tr)"
    and "Create_boot_image cfg bops 0 ofile_size \<in> set tr"
    and "create_boot_image e cfg bops = (err, n, img)"
  shows "filter is_fwrite tr =
           (if \<exists>p. Fopen p ''wb'' True \<in> set tr
            then [Fwrite (map img [0 ..< unat ofile_size])] else [])
         \<and> (\<forall>ws. Fwrite ws \<in> set tr \<longrightarrow>
                ws = map img [0 ..< unat ofile_size] \<and> length ws = unat ofile_size)"
  using assms(1)
  by (cases rule: main_cases)
     (use assms(2-) in \<open>auto simp: housekeeping_def in_parse_events
        allocs_in_def allocs_out_def free_ptr_def
        split: option.splits if_splits\<close>)

theorem writes_exactly_ofile_size_witness:
  "main demo_env demo_args = (Return 0, demo_trace)
   \<and> Create_boot_image demo_cfg zynq_bops 0 3 \<in> set demo_trace
   \<and> create_boot_image demo_env demo_cfg zynq_bops = (0, 3, \<lambda>i. word_of_nat (i + 1))
   \<and> Malloc File_data 32 True \<in> set demo_trace
   \<and> filter is_fwrite demo_trace = [Fwrite [1, 2, 3]]"
proof -
  have run: "main demo_env demo_args = (Return 0, demo_trace)"
    by (rule main_demo)
  have ev: "Create_boot_image demo_cfg zynq_bops 0 3 \<in> set demo_trace"
    by (simp add: demo_trace_def)
  have cr: "create_boot_image demo_env demo_cfg zynq_bops = (0, 3, \<lambda>i. word_of_nat (i + 1))"
    by (simp add: demo_env_def)
  have opened: "Fopen ''boot.bin'' ''wb'' True \<in> set demo_trace"
    by (simp add: demo_trace_def)
  have cap: "Malloc File_data 32 True \<in> set demo_trace"
    by (simp add: demo_trace_def)
  from writes_exactly_ofile_size [OF run ev cr] opened
  have "filter is_fwrite demo_trace = [Fwrite (map (\<lambda>i. word_of_nat (i + 1)) [0 ..< unat (3 :: u32)])]"
    by auto
  then have "filter is_fwrite demo_trace = [Fwrite [1, 2, 3]]"
    by (simp add: upt_0_3)
  with run ev cr cap show ?thesis by simp
qed

text \<open>
  C2. The rounding loop does not end for every nonzero estimate. For an estimate above
  \<open>2 ^ 31\<close> the doubled capacity reaches \<open>2 ^ 31\<close>, wraps to \<open>0\<close> in \<open>uint32_t\<close>
  and stays there, below the estimate: here at \<open>0x80000001\<close>, where the loop has no
  result and the run of the driver hangs after the size estimate.
\<close>

theorem rounding_loop_hangs:
  "esize_aligned_loop 2 0x80000001 = None \<and> main env_huge demo_args = (Hang, huge_trace)"
proof -
  have "esize_aligned_loop 2 0x80000001 = None"
    by (rule loop_diverges) simp
  then show ?thesis by (simp add: main_huge)
qed

text \<open>
  C3. A run opens the output file only after everything before it succeeded: when the
  trace holds an \<open>fopen\<close>, no earlier or later call of the run failed (no failed
  allocation, no parser error, no zero estimate, no compositor error), the successful
  \<open>create_boot_image\<close> precedes it, it is the only \<open>fopen\<close>, and nothing is written
  before it.
\<close>

theorem output_opened_after_composition:
  assumes "main e a = (out, tr)" and "Fopen p m ok \<in> set tr"
  shows "(\<forall>ev\<in>set tr. \<not> failed ev)
         \<and> (\<exists>pre post cfg bops n.
               tr = pre @ Fopen p m ok # post
               \<and> Create_boot_image cfg bops 0 n \<in> set pre
               \<and> (\<forall>q k r. Fopen q k r \<notin> set pre \<and> Fopen q k r \<notin> set post)
               \<and> (\<forall>ws. Fwrite ws \<notin> set pre))"
  using assms(1)
proof (cases rule: main_cases)
  case (Open_error cfg esize cap n img bin)
  let ?pre = "prologue e a @ parse_events e a (name_in a) @ report (name_in a) cfg
                @ [Estimate_boot_image_size cfg esize, Malloc File_data (4 * ucast cap) True,
                   Create_boot_image cfg (selected_bops a) 0 n]"
  let ?post = "[Errorf (''could not open output file: '' @ bin @ newline), Free File_data]
                 @ epilogue a"
  from Open_error assms(2) have ev: "p = bin" "m = ''wb''" "ok = False"
    by (auto simp: housekeeping_def in_parse_events split: if_splits)
  have 1: "tr = ?pre @ Fopen p m ok # ?post" using Open_error ev by simp
  have 2: "Create_boot_image cfg (selected_bops a) 0 n \<in> set ?pre" by simp
  have 3: "\<forall>q k r. Fopen q k r \<notin> set ?pre \<and> Fopen q k r \<notin> set ?post"
    by (auto simp: housekeeping_def in_parse_events split: if_splits)
  have 4: "\<forall>ws. Fwrite ws \<notin> set ?pre"
    by (auto simp: housekeeping_def in_parse_events split: if_splits)
  have 5: "\<forall>ev\<in>set tr. \<not> failed ev"
    using Open_error no_failed no_failed_parse_events [of e a "name_in a"]
    by (simp add: ball_Un)
  from 1 2 3 4 5 show ?thesis by blast
next
  case (Written cfg esize cap n img bin)
  let ?pre = "prologue e a @ parse_events e a (name_in a) @ report (name_in a) cfg
                @ [Estimate_boot_image_size cfg esize, Malloc File_data (4 * ucast cap) True,
                   Create_boot_image cfg (selected_bops a) 0 n]"
  let ?post = "[Fwrite (map img [0 ..< unat n]), Fclose, Free File_data,
                Printf (''All done, quitting'' @ newline)] @ epilogue a"
  from Written assms(2) have ev: "p = bin" "m = ''wb''" "ok = True"
    by (auto simp: housekeeping_def in_parse_events split: if_splits)
  have 1: "tr = ?pre @ Fopen p m ok # ?post" using Written ev by simp
  have 2: "Create_boot_image cfg (selected_bops a) 0 n \<in> set ?pre" by simp
  have 3: "\<forall>q k r. Fopen q k r \<notin> set ?pre \<and> Fopen q k r \<notin> set ?post"
    by (auto simp: housekeeping_def in_parse_events split: if_splits)
  have 4: "\<forall>ws. Fwrite ws \<notin> set ?pre"
    by (auto simp: housekeeping_def in_parse_events split: if_splits)
  have 5: "\<forall>ev\<in>set tr. \<not> failed ev"
    using Written no_failed no_failed_parse_events [of e a "name_in a"]
    by (simp add: ball_Un)
  from 1 2 3 4 5 show ?thesis by blast
qed (use assms(2) in \<open>auto simp: housekeeping_def in_parse_events allocs_in_def allocs_out_def
       free_ptr_def split: option.splits if_splits\<close>)

theorem output_opened_after_composition_witness:
  "main demo_env demo_args = (Return 0, demo_trace)
   \<and> Fopen ''boot.bin'' ''wb'' True \<in> set demo_trace
   \<and> (\<exists>pre post cfg bops n.
         demo_trace = pre @ Fopen ''boot.bin'' ''wb'' True # post
         \<and> Create_boot_image cfg bops 0 n \<in> set pre)"
proof -
  have run: "main demo_env demo_args = (Return 0, demo_trace)"
    by (rule main_demo)
  have opened: "Fopen ''boot.bin'' ''wb'' True \<in> set demo_trace"
    by (simp add: demo_trace_def)
  from output_opened_after_composition [OF run opened] run opened
  show ?thesis by blast
qed

text \<open>
  C4, as stated, fails: a parse-only run whose input parses into a configuration without
  nodes does not return success. Line 206 sends it to \<open>cleanup_no_file\<close> before the
  parse-only test of line 222 is reached.
\<close>

theorem parse_only_success_counterexample:
  "parse_only args_inspect_empty
   \<and> main env_empty args_inspect_empty
       = (Return (ERROR_BOOTROM_NOFILE env_empty), inspect_empty_trace)
   \<and> Bif_parse ''empty.bif'' demo_start_cfg 0 demo_start_cfg \<in> set inspect_empty_trace
   \<and> Return (ERROR_BOOTROM_NOFILE env_empty) \<noteq> Return EXIT_SUCCESS"
  by (simp add: main_inspect_empty)
     (simp add: args_inspect_empty_def env_empty_def demo_env_def inspect_empty_trace_def
        EXIT_SUCCESS_def)

text \<open>
  C4, amended. No parse-only run, whatever its parser returns, estimates a size,
  allocates the image buffer, derives an output name, or opens, writes or closes a
  file; and a parse-only run whose input parses into at least one node returns success.
\<close>

theorem parse_only_builds_nothing:
  assumes "main e a = (out, tr)" and "parse_only a"
  shows "(\<forall>ev\<in>set tr. \<not> touches_output ev)
         \<and> (\<forall>f t l lbl c c'.
               (Bif_parse f c 0 c' \<in> set tr \<or> Bif_parse_buf t l lbl c 0 c' \<in> set tr)
               \<and> nodes_num c' \<noteq> 0
               \<longrightarrow> out = Return EXIT_SUCCESS)"
  using assms(1)
proof (cases rule: main_cases)
  case Crash_no_names
  then show ?thesis by simp
next
  case (Nomem_input bin)
  then show ?thesis using no_touch_parse_only [OF assms(2)]
    by (auto simp: allocs_in_def)
next
  case Nomem_output
  then show ?thesis using assms(2) by (simp add: derives_out_def)
next
  case Nomem_bif_buf
  then show ?thesis using no_touch_parse_only [OF assms(2)]
    by (auto simp: ball_Un housekeeping_def)
next
  case (Parse_error err cfg)
  then show ?thesis
    using no_touch_parse_only [OF assms(2)] no_touch_parse_events [of e a "name_in a"]
    by (auto simp: ball_Un housekeeping_def in_parse_events split: if_splits)
next
  case (No_nodes cfg)
  then show ?thesis
    using no_touch_parse_only [OF assms(2)] no_touch_parse_events [of e a "name_in a"]
    by (auto simp: ball_Un housekeeping_def in_parse_events split: if_splits)
next
  case (Parse_only cfg)
  then show ?thesis
    using no_touch_parse_only [OF assms(2)] no_touch_parse_events [of e a "name_in a"]
      no_touch_report [of "name_in a" cfg]
    by (simp add: ball_Un)
qed (use assms(2) in simp_all)

theorem parse_only_builds_nothing_witness:
  "main demo_env args_inspect = (Return 0, inspect_trace)
   \<and> parse_only args_inspect
   \<and> Bif_parse ''out/boot.bif'' \<lparr>arch = BIF_ARCH_ZYNQMP, nodes = []\<rparr> 0
         \<lparr>arch = BIF_ARCH_ZYNQMP, nodes = demo_nodes\<rparr> \<in> set inspect_trace
   \<and> nodes_num \<lparr>arch = BIF_ARCH_ZYNQMP, nodes = demo_nodes\<rparr> \<noteq> 0
   \<and> Return 0 = Return EXIT_SUCCESS"
proof -
  have run: "main demo_env args_inspect = (Return 0, inspect_trace)"
    by (rule main_inspect)
  have po: "parse_only args_inspect"
    by (simp add: args_inspect_def)
  have ev: "Bif_parse ''out/boot.bif'' \<lparr>arch = BIF_ARCH_ZYNQMP, nodes = []\<rparr> 0
              \<lparr>arch = BIF_ARCH_ZYNQMP, nodes = demo_nodes\<rparr> \<in> set inspect_trace"
    by (simp add: inspect_trace_def)
  have nz: "nodes_num \<lparr>arch = BIF_ARCH_ZYNQMP, nodes = demo_nodes\<rparr> \<noteq> 0"
    by (simp add: nodes_num_def demo_nodes_def)
  from parse_only_builds_nothing [OF run po] ev nz
  have "Return 0 = Return EXIT_SUCCESS" by blast
  with run po ev nz show ?thesis by simp
qed

text \<open>
  C5, as stated, fails: here the input name is derived from the output name, the
  parser succeeds and leaves no node, and the parse-only run returns
  \<open>ERROR_BOOTROM_NOFILE\<close>, not success.
\<close>

theorem empty_configuration_counterexample:
  "parse_only args_inspect_named
   \<and> main env_empty args_inspect_named
       = (Return (ERROR_BOOTROM_NOFILE env_empty), inspect_named_trace)
   \<and> Bif_parse ''boot.bif'' demo_start_cfg 0 demo_start_cfg \<in> set inspect_named_trace
   \<and> nodes_num demo_start_cfg = 0
   \<and> Return (ERROR_BOOTROM_NOFILE env_empty) \<noteq> Return EXIT_SUCCESS"
  by (simp add: main_inspect_named)
     (simp add: args_inspect_named_def env_empty_def demo_env_def inspect_named_trace_def
        EXIT_SUCCESS_def nodes_num_def demo_start_cfg_def)

text \<open>
  C5, amended. A run whose input parses successfully into a configuration with zero
  nodes returns \<open>ERROR_BOOTROM_NOFILE\<close>, with or without \<open>--parse-only\<close>: the empty
  configuration has a code of its own, the configuration is released, and nothing is
  estimated, allocated for the image, opened or written. When that code is not zero the
  run does not return success.
\<close>

theorem empty_configuration_is_nofile:
  assumes "main e a = (out, tr)"
    and "Bif_parse f c 0 c' \<in> set tr \<or> Bif_parse_buf t l lbl c 0 c' \<in> set tr"
    and "nodes_num c' = 0"
  shows "out = Return (ERROR_BOOTROM_NOFILE e)
         \<and> Deinit_bif_cfg \<in> set tr
         \<and> (\<forall>ev\<in>set tr. \<not> builds_image ev)
         \<and> (ERROR_BOOTROM_NOFILE e \<noteq> 0 \<longrightarrow> out \<noteq> Return EXIT_SUCCESS)"
  using assms(1)
proof (cases rule: main_cases)
  case (No_nodes cfg)
  then show ?thesis
    using no_builds no_builds_parse_events [of e a "name_in a"]
    by (simp add: ball_Un epilogue_def EXIT_SUCCESS_def)
qed (use assms(2-) in \<open>auto simp: housekeeping_def in_parse_events allocs_in_def allocs_out_def
       free_ptr_def split: option.splits if_splits\<close>)

theorem empty_configuration_is_nofile_witness:
  "main env_empty args_inspect_empty = (Return 1, inspect_empty_trace)
   \<and> Bif_parse ''empty.bif'' demo_start_cfg 0 demo_start_cfg \<in> set inspect_empty_trace
   \<and> nodes_num demo_start_cfg = 0
   \<and> ERROR_BOOTROM_NOFILE env_empty \<noteq> 0
   \<and> Return 1 = Return (ERROR_BOOTROM_NOFILE env_empty)
   \<and> Return 1 \<noteq> Return EXIT_SUCCESS"
proof -
  have run: "main env_empty args_inspect_empty = (Return 1, inspect_empty_trace)"
    by (rule main_inspect_empty)
  have ev: "Bif_parse ''empty.bif'' demo_start_cfg 0 demo_start_cfg \<in> set inspect_empty_trace"
    by (simp add: inspect_empty_trace_def)
  have zero: "nodes_num demo_start_cfg = 0"
    by (simp add: nodes_num_def demo_start_cfg_def)
  have nz: "ERROR_BOOTROM_NOFILE env_empty \<noteq> 0"
    by (simp add: env_empty_def demo_env_def)
  from empty_configuration_is_nofile [OF run disjI1 [OF ev] zero] nz
  have "Return 1 = Return (ERROR_BOOTROM_NOFILE env_empty)" "Return 1 \<noteq> Return EXIT_SUCCESS"
    by blast+
  with run ev zero nz show ?thesis by simp
qed




text \<open>
  C7. A nonzero error returned by \<open>bif_parse\<close>, by \<open>bif_parse_buf\<close> or by
  \<open>create_boot_image\<close> is the value \<open>main\<close> returns, unchanged. No call before the
  failing one failed, only releases (\<open>free\<close>, \<open>deinit_bif_cfg\<close>) follow it, and the
  run has at most one parser call and at most one compositor call: the failing call is
  not made again.
\<close>

theorem errors_propagate_unchanged:
  assumes "main e a = (out, tr)"
    and "ev = Bif_parse f c err c' \<or> ev = Bif_parse_buf t l lbl c err c'
           \<or> ev = Create_boot_image c b err n"
    and "ev \<in> set tr"
    and "err \<noteq> 0"
  shows "out = Return err
         \<and> (\<exists>pre post. tr = pre @ ev # post
               \<and> (\<forall>x\<in>set pre. \<not> failed x)
               \<and> (\<forall>x\<in>set post. is_release x))
         \<and> length (filter is_parse tr) \<le> 1
         \<and> length (filter is_create tr) \<le> 1"
proof -
  have mem: "Bif_parse f c err c' \<in> set tr \<or> Bif_parse_buf t l lbl c err c' \<in> set tr
               \<or> Create_boot_image c b err n \<in> set tr"
    using assms(2,3) by blast
  from assms(1) show ?thesis
proof (cases rule: main_cases)
  case (Parse_error r cfg)
  have pr: "fst (parse_result e a (name_in a)) = r" "snd (parse_result e a (name_in a)) = cfg"
    using Parse_error by simp_all
  have counts: "length (filter is_parse tr) \<le> 1" "length (filter is_create tr) \<le> 1"
    using Parse_error by (simp_all add: filter_parse filter_create length_filter_parse_events)
  show ?thesis
  proof (cases "bit2bin a")
    case True
    let ?m = "Malloc Bif_buf (word_of_nat (length (bit2bin_text (name_in a)) + 1)) True"
    let ?pre = "prologue e a @ [?m]"
    let ?post = "Free Bif_buf # epilogue a"
    from Parse_error assms(2-) True
    have ev: "ev = Bif_parse_buf (bit2bin_text (name_in a))
                     (word_of_nat (length (bit2bin_text (name_in a)))) ''<bit2bin>''
                     (start_cfg e a) r cfg" and r: "r = err"
      by (auto simp: housekeeping_def in_parse_events pr)
    have 1: "tr = ?pre @ ev # ?post"
      using Parse_error True ev by (simp add: parse_events_def pr)
    have 2: "\<forall>x\<in>set ?pre. \<not> failed x" using no_failed by simp
    have 3: "\<forall>x\<in>set ?post. is_release x" using epilogue_releases by simp
    from 1 2 3 have "\<exists>pre post. tr = pre @ ev # post
               \<and> (\<forall>x\<in>set pre. \<not> failed x) \<and> (\<forall>x\<in>set post. is_release x)"
      by blast
    with Parse_error r counts show ?thesis by simp
  next
    case False
    from Parse_error assms(2-) False
    have ev: "ev = Bif_parse (name_in a) (start_cfg e a) r cfg" and r: "r = err"
      by (auto simp: housekeeping_def in_parse_events pr)
    have 1: "tr = prologue e a @ ev # epilogue a"
      using Parse_error False ev by (simp add: parse_events_def pr)
    have 2: "\<forall>x\<in>set (prologue e a). \<not> failed x" using no_failed by simp
    from 1 2 epilogue_releases
    have "\<exists>pre post. tr = pre @ ev # post
               \<and> (\<forall>x\<in>set pre. \<not> failed x) \<and> (\<forall>x\<in>set post. is_release x)"
      by blast
    with Parse_error r counts show ?thesis by simp
  qed
next
  case (Compose_error cfg esize cap r k img)
  let ?pre = "prologue e a @ parse_events e a (name_in a) @ report (name_in a) cfg
                @ [Estimate_boot_image_size cfg esize, Malloc File_data (4 * ucast cap) True]"
  let ?post = "Free File_data # epilogue a"
  have pr: "fst (parse_result e a (name_in a)) = 0" using Compose_error by simp
  from Compose_error assms(2-)
  have ev: "ev = Create_boot_image cfg (selected_bops a) r k" and r: "r = err"
    by (auto simp: housekeeping_def in_parse_events pr split: if_splits)
  have counts: "length (filter is_parse tr) \<le> 1" "length (filter is_create tr) \<le> 1"
    using Compose_error by (simp_all add: filter_parse filter_create length_filter_parse_events)
  have 1: "tr = ?pre @ ev # ?post" using Compose_error ev by simp
  have 2: "\<forall>x\<in>set ?pre. \<not> failed x"
    using no_failed no_failed_parse_events [OF pr] Compose_error by (simp add: ball_Un)
  have 3: "\<forall>x\<in>set ?post. is_release x" using epilogue_releases by simp
  from 1 2 3 have "\<exists>pre post. tr = pre @ ev # post
               \<and> (\<forall>x\<in>set pre. \<not> failed x) \<and> (\<forall>x\<in>set post. is_release x)"
    by blast
  with Compose_error r counts show ?thesis by simp
qed (use mem assms(4) in \<open>auto simp: housekeeping_def in_parse_events allocs_in_def
       allocs_out_def free_ptr_def split: option.splits if_splits\<close>)
qed

theorem errors_propagate_unchanged_witness:
  "Bif_parse ''boot.bif'' demo_start_cfg 4 demo_start_cfg
     \<in> set (snd (main env_parse_error demo_args))
   \<and> (4 :: int) \<noteq> 0
   \<and> fst (main env_parse_error demo_args) = Return 4
   \<and> Bif_parse_buf (''all: { top.bit }'' @ newline) 17 ''<bit2bin>'' demo_start_cfg 6
         demo_start_cfg \<in> set (snd (main env_bad_bit args_bit2bin))
   \<and> (6 :: int) \<noteq> 0
   \<and> fst (main env_bad_bit args_bit2bin) = Return 6
   \<and> Create_boot_image demo_cfg zynq_bops 5 0
         \<in> set (snd (main env_compose_error demo_args))
   \<and> (5 :: int) \<noteq> 0
   \<and> fst (main env_compose_error demo_args) = Return 5
   \<and> length (filter is_create (snd (main env_compose_error demo_args))) \<le> 1"
proof -
  have ev1: "Bif_parse ''boot.bif'' demo_start_cfg 4 demo_start_cfg
               \<in> set (snd (main env_parse_error demo_args))"
    by (simp add: main_parse_error parse_error_trace_def)
  have nz1: "(4 :: int) \<noteq> 0" by simp
  have out1: "fst (main env_parse_error demo_args) = Return 4"
    using errors_propagate_unchanged
            [OF prod.collapse [symmetric] disjI1 [OF refl] ev1 nz1]
    by blast
  have ev2: "Bif_parse_buf (''all: { top.bit }'' @ newline) 17 ''<bit2bin>'' demo_start_cfg 6
               demo_start_cfg \<in> set (snd (main env_bad_bit args_bit2bin))"
    by (simp add: main_bad_bit bad_bit_trace_def)
  have nz2: "(6 :: int) \<noteq> 0" by simp
  have out2: "fst (main env_bad_bit args_bit2bin) = Return 6"
    using errors_propagate_unchanged
            [OF prod.collapse [symmetric] disjI2 [OF disjI1 [OF refl]] ev2 nz2]
    by blast
  have ev3: "Create_boot_image demo_cfg zynq_bops 5 0
               \<in> set (snd (main env_compose_error demo_args))"
    by (simp add: main_compose_error compose_error_trace_def)
  have nz3: "(5 :: int) \<noteq> 0" by simp
  note third = errors_propagate_unchanged
                 [OF prod.collapse [symmetric] disjI2 [OF disjI2 [OF refl]] ev3 nz3]
  from third have out3: "fst (main env_compose_error demo_args) = Return 5"
    by blast
  from third
  have once: "length (filter is_create (snd (main env_compose_error demo_args))) \<le> 1"
    by blast
  from ev1 nz1 out1 ev2 nz2 out2 ev3 nz3 out3 once show ?thesis by simp
qed

text \<open>
  C8. Every parser call of a run receives the initial configuration with \<open>arch\<close> set
  from the \<open>zynqmp\<close> flag, and there is at most one; the estimator and the compositor
  receive the configuration a successful parser call left, and the compositor receives
  the operations table that the same flag selects.
\<close>

theorem architecture_selected_once:
  assumes "main e a = (out, tr)"
  shows "(\<forall>f t l lbl c r c'.
            Bif_parse f c r c' \<in> set tr \<or> Bif_parse_buf t l lbl c r c' \<in> set tr \<longrightarrow>
            c = (init_bif_cfg e)\<lparr>arch := (if zynqmp a then BIF_ARCH_ZYNQMP
                                           else BIF_ARCH_ZYNQ)\<rparr>)
         \<and> length (filter is_parse tr) \<le> 1
         \<and> (\<forall>c z. Estimate_boot_image_size c z \<in> set tr \<longrightarrow>
               (\<exists>f t l lbl c0. Bif_parse f c0 0 c \<in> set tr
                                \<or> Bif_parse_buf t l lbl c0 0 c \<in> set tr))
         \<and> (\<forall>c b r k. Create_boot_image c b r k \<in> set tr \<longrightarrow>
               b = (if zynqmp a then zynqmp_bops else zynq_bops)
               \<and> (\<exists>f t l lbl c0. Bif_parse f c0 0 c \<in> set tr
                                  \<or> Bif_parse_buf t l lbl c0 0 c \<in> set tr))"
  using assms(1)
  by (cases rule: main_cases)
     (auto simp: housekeeping_def in_parse_events filter_parse length_filter_parse_events
        filter_parse_allocs_in filter_parse_allocs_out filter_parse_free_ptr
        start_cfg_def selected_bops_def allocs_in_def allocs_out_def free_ptr_def
        dest!: parse_result_alt split: if_splits option.splits)

theorem architecture_selected_once_witness:
  "main demo_env demo_args = (Return 0, demo_trace)
   \<and> Bif_parse ''boot.bif'' demo_start_cfg 0 demo_cfg \<in> set demo_trace
   \<and> Create_boot_image demo_cfg zynq_bops 0 3 \<in> set demo_trace
   \<and> \<not> zynqmp demo_args
   \<and> demo_start_cfg = (init_bif_cfg demo_env)\<lparr>arch := BIF_ARCH_ZYNQ\<rparr>"
proof -
  have run: "main demo_env demo_args = (Return 0, demo_trace)"
    by (rule main_demo)
  have ev: "Bif_parse ''boot.bif'' demo_start_cfg 0 demo_cfg \<in> set demo_trace"
    and cr: "Create_boot_image demo_cfg zynq_bops 0 3 \<in> set demo_trace"
    by (simp_all add: demo_trace_def)
  have flag: "\<not> zynqmp demo_args"
    by (simp add: demo_args_def)
  from architecture_selected_once [OF run] ev
  have "demo_start_cfg
          = (init_bif_cfg demo_env)\<lparr>arch := (if zynqmp demo_args then BIF_ARCH_ZYNQMP
                                                else BIF_ARCH_ZYNQ)\<rparr>"
    by blast
  with run ev cr flag show ?thesis by simp
qed

text \<open>
  C9. When the image is composed and the output file cannot be opened, \<open>main\<close> returns
  \<open>ERROR_CANT_WRITE\<close>: the failed \<open>fopen\<close> comes after the successful
  \<open>create_boot_image\<close> and the allocation of the image buffer, the buffer is freed and
  the diagnostic printed after it, and the run calls neither \<open>fwrite\<close> nor \<open>fclose\<close>.
\<close>

theorem unwritable_output:
  assumes "main e a = (out, tr)" and "Fopen p m False \<in> set tr"
  shows "out = Return (ERROR_CANT_WRITE e)
         \<and> (\<exists>pre post cfg bops n sz.
               tr = pre @ Fopen p m False # post
               \<and> Create_boot_image cfg bops 0 n \<in> set pre
               \<and> Malloc File_data sz True \<in> set pre
               \<and> Free File_data \<in> set post
               \<and> Errorf (''could not open output file: '' @ p @ newline) \<in> set post)
         \<and> (\<forall>ws. Fwrite ws \<notin> set tr)
         \<and> Fclose \<notin> set tr"
  using assms(1)
proof (cases rule: main_cases)
  case (Open_error cfg esize cap n img bin)
  let ?pre = "prologue e a @ parse_events e a (name_in a) @ report (name_in a) cfg
                @ [Estimate_boot_image_size cfg esize, Malloc File_data (4 * ucast cap) True,
                   Create_boot_image cfg (selected_bops a) 0 n]"
  let ?post = "[Errorf (''could not open output file: '' @ bin @ newline), Free File_data]
                 @ epilogue a"
  from Open_error assms(2) have ev: "p = bin" "m = ''wb''"
    by (auto simp: housekeeping_def in_parse_events split: if_splits)
  have 1: "tr = ?pre @ Fopen p m False # ?post" using Open_error ev by simp
  have 2: "Create_boot_image cfg (selected_bops a) 0 n \<in> set ?pre"
    and 3: "Malloc File_data (4 * ucast cap) True \<in> set ?pre"
    and 4: "Free File_data \<in> set ?post"
    and 5: "Errorf (''could not open output file: '' @ p @ newline) \<in> set ?post"
    using ev by simp_all
  have 6: "\<forall>ws. Fwrite ws \<notin> set tr" "Fclose \<notin> set tr"
    using Open_error
    by (auto simp: housekeeping_def in_parse_events split: if_splits)
  from 1 2 3 4 5 have "\<exists>pre post cfg bops n sz.
               tr = pre @ Fopen p m False # post
               \<and> Create_boot_image cfg bops 0 n \<in> set pre
               \<and> Malloc File_data sz True \<in> set pre
               \<and> Free File_data \<in> set post
               \<and> Errorf (''could not open output file: '' @ p @ newline) \<in> set post"
    by blast
  with 6 Open_error show ?thesis by simp
qed (use assms(2) in \<open>auto simp: housekeeping_def in_parse_events allocs_in_def allocs_out_def
       free_ptr_def split: option.splits if_splits\<close>)

theorem unwritable_output_witness:
  "main env_read_only demo_args = (Return 9, read_only_trace)
   \<and> Fopen ''boot.bin'' ''wb'' False \<in> set read_only_trace
   \<and> Return 9 = Return (ERROR_CANT_WRITE env_read_only)
   \<and> Fclose \<notin> set read_only_trace"
proof -
  have run: "main env_read_only demo_args = (Return 9, read_only_trace)"
    by (rule main_read_only)
  have ev: "Fopen ''boot.bin'' ''wb'' False \<in> set read_only_trace"
    by (simp add: read_only_trace_def)
  from unwritable_output [OF run ev] run ev show ?thesis by blast
qed

text \<open>
  C10. \<open>derive_filename\<close> returns the source path with the extension of its basename
  replaced: the basename is what follows the last \<open>/\<close> or \<open>\\<close>, its extension starts at
  its last dot, and a basename without a dot gets the new extension appended; the
  block requested holds that name and its terminator, and the result is null when the
  allocation fails. In \<open>main\<close>, a missing input name is the output name with \<open>.bit\<close>
  (bit2bin mode) or \<open>.bif\<close>, and a missing output name, where one is derived, is the
  input name with \<open>.bin\<close>.
\<close>

theorem derive_filename_replaces_extension:
  "derive_filename e blk src new_ext tr0 =
     (if malloc e blk (word_of_nat (length (replace_extension src new_ext) + 1))
      then (Some (replace_extension src new_ext),
            tr0 @ [Malloc blk (word_of_nat (length (replace_extension src new_ext) + 1)) True])
      else (None,
            tr0 @ [Malloc blk (word_of_nat (length (replace_extension src new_ext) + 1)) False]))
   \<and> (main e a = (out, tr) \<longrightarrow>
        (\<forall>bin. bif_filename a = None \<and> bin_filename a = Some bin \<longrightarrow>
           (\<forall>f c r c'. Bif_parse f c r c' \<in> set tr \<longrightarrow>
              \<not> bit2bin a \<and> f = replace_extension bin ''.bif'')
           \<and> (\<forall>t l lbl c r c'. Bif_parse_buf t l lbl c r c' \<in> set tr \<longrightarrow>
                 bit2bin a
                 \<and> t = ''all: { '' @ replace_extension bin ''.bit'' @ '' }'' @ newline)
           \<and> (\<forall>sz ok. Malloc Derived_input sz ok \<in> set tr \<longrightarrow>
                 sz = word_of_nat
                        (length (replace_extension bin
                                   (if bit2bin a then ''.bit'' else ''.bif'')) + 1)))
        \<and> (\<forall>bif. bif_filename a = Some bif \<and> bin_filename a = None \<longrightarrow>
             (\<forall>p m ok. Fopen p m ok \<in> set tr \<longrightarrow> p = replace_extension bif ''.bin'')
             \<and> (\<forall>sz ok. Malloc Derived_output sz ok \<in> set tr \<longrightarrow>
                   sz = word_of_nat (length (replace_extension bif ''.bin'') + 1))))"
proof (intro conjI impI)
  show "derive_filename e blk src new_ext tr0 =
     (if malloc e blk (word_of_nat (length (replace_extension src new_ext) + 1))
      then (Some (replace_extension src new_ext),
            tr0 @ [Malloc blk (word_of_nat (length (replace_extension src new_ext) + 1)) True])
      else (None,
            tr0 @ [Malloc blk (word_of_nat (length (replace_extension src new_ext) + 1)) False]))"
    by (simp add: derive_filename_eq' size_for_spec derived_name_spec)
next
  assume run: "main e a = (out, tr)"
  show "\<forall>bin. bif_filename a = None \<and> bin_filename a = Some bin \<longrightarrow>
           (\<forall>f c r c'. Bif_parse f c r c' \<in> set tr \<longrightarrow>
              \<not> bit2bin a \<and> f = replace_extension bin ''.bif'')
           \<and> (\<forall>t l lbl c r c'. Bif_parse_buf t l lbl c r c' \<in> set tr \<longrightarrow>
                 bit2bin a
                 \<and> t = ''all: { '' @ replace_extension bin ''.bit'' @ '' }'' @ newline)
           \<and> (\<forall>sz ok. Malloc Derived_input sz ok \<in> set tr \<longrightarrow>
                 sz = word_of_nat
                        (length (replace_extension bin
                                   (if bit2bin a then ''.bit'' else ''.bif'')) + 1))"
    using run
    by (cases rule: main_cases)
       (auto simp: housekeeping_def in_parse_events allocs_in_def allocs_out_def free_ptr_def
          name_in_derived bit2bin_text_def prologue_def epilogue_def banner_def frees_def
          size_for_spec input_ext_def derives_out_def
          dest!: report_is_print split: if_splits)
next
  assume run: "main e a = (out, tr)"
  show "\<forall>bif. bif_filename a = Some bif \<and> bin_filename a = None \<longrightarrow>
             (\<forall>p m ok. Fopen p m ok \<in> set tr \<longrightarrow> p = replace_extension bif ''.bin'')
             \<and> (\<forall>sz ok. Malloc Derived_output sz ok \<in> set tr \<longrightarrow>
                   sz = word_of_nat (length (replace_extension bif ''.bin'') + 1))"
    using run
    by (cases rule: main_cases)
       (auto simp: housekeeping_def in_parse_events allocs_in_def allocs_out_def free_ptr_def
          name_in_given prologue_def epilogue_def banner_def frees_def
          size_for_spec derives_out_def
          dest!: report_is_print dest: name_out_derived split: if_splits)
qed

theorem derive_filename_replaces_extension_witness:
  "main demo_env args_inspect = (Return 0, inspect_trace)
   \<and> bif_filename args_inspect = None
   \<and> bin_filename args_inspect = Some ''out/boot.bin''
   \<and> Bif_parse ''out/boot.bif'' \<lparr>arch = BIF_ARCH_ZYNQMP, nodes = []\<rparr> 0
         \<lparr>arch = BIF_ARCH_ZYNQMP, nodes = demo_nodes\<rparr> \<in> set inspect_trace
   \<and> ''out/boot.bif'' = replace_extension ''out/boot.bin'' ''.bif''
   \<and> main demo_env args_bit2bin_named = (Return 0, bit2bin_named_trace)
   \<and> bif_filename args_bit2bin_named = None
   \<and> bin_filename args_bit2bin_named = Some ''top.bin''
   \<and> Bif_parse_buf (''all: { top.bit }'' @ newline) 17 ''<bit2bin>'' demo_start_cfg 0 bit_cfg
         \<in> set bit2bin_named_trace
   \<and> ''all: { top.bit }'' @ newline
       = ''all: { '' @ replace_extension ''top.bin'' ''.bit'' @ '' }'' @ newline
   \<and> main demo_env demo_args = (Return 0, demo_trace)
   \<and> bif_filename demo_args = Some ''boot.bif''
   \<and> bin_filename demo_args = None
   \<and> Fopen ''boot.bin'' ''wb'' True \<in> set demo_trace
   \<and> ''boot.bin'' = replace_extension ''boot.bif'' ''.bin''"
proof -
  have run1: "main demo_env args_inspect = (Return 0, inspect_trace)"
    by (rule main_inspect)
  have args1: "bif_filename args_inspect = None"
    "bin_filename args_inspect = Some ''out/boot.bin''"
    by (simp_all add: args_inspect_def)
  have ev1: "Bif_parse ''out/boot.bif'' \<lparr>arch = BIF_ARCH_ZYNQMP, nodes = []\<rparr> 0
               \<lparr>arch = BIF_ARCH_ZYNQMP, nodes = demo_nodes\<rparr> \<in> set inspect_trace"
    by (simp add: inspect_trace_def)
  from derive_filename_replaces_extension
         [where a = args_inspect and e = demo_env and out = "Return 0" and tr = inspect_trace,
            THEN conjunct2]
       run1 args1 ev1
  have name1: "''out/boot.bif'' = replace_extension ''out/boot.bin'' ''.bif''"
    by blast
  have run2: "main demo_env args_bit2bin_named = (Return 0, bit2bin_named_trace)"
    by (rule main_bit2bin_named)
  have args2: "bif_filename args_bit2bin_named = None"
    "bin_filename args_bit2bin_named = Some ''top.bin''"
    by (simp_all add: args_bit2bin_named_def)
  have ev2: "Bif_parse_buf (''all: { top.bit }'' @ newline) 17 ''<bit2bin>'' demo_start_cfg 0
               bit_cfg \<in> set bit2bin_named_trace"
    by (simp add: bit2bin_named_trace_def)
  from derive_filename_replaces_extension
         [where a = args_bit2bin_named and e = demo_env and out = "Return 0"
            and tr = bit2bin_named_trace, THEN conjunct2]
       run2 args2 ev2
  have name2: "''all: { top.bit }'' @ newline
                 = ''all: { '' @ replace_extension ''top.bin'' ''.bit'' @ '' }'' @ newline"
    by blast
  have run3: "main demo_env demo_args = (Return 0, demo_trace)"
    by (rule main_demo)
  have args3: "bif_filename demo_args = Some ''boot.bif''" "bin_filename demo_args = None"
    by (simp_all add: demo_args_def)
  have ev3: "Fopen ''boot.bin'' ''wb'' True \<in> set demo_trace"
    by (simp add: demo_trace_def)
  from derive_filename_replaces_extension
         [where a = demo_args and e = demo_env and out = "Return 0" and tr = demo_trace,
            THEN conjunct2]
       run3 args3 ev3
  have name3: "''boot.bin'' = replace_extension ''boot.bif'' ''.bin''"
    by blast
  from run1 args1 ev1 name1 run2 args2 ev2 name2 run3 args3 ev3 name3
  show ?thesis by simp
qed

end
